theory Spec2Isabelle
  imports Main
begin

section \<open>Data model of the scanner\<close>

text \<open>
  Addresses and sizes (\<open>const char*\<close>, \<open>size_t\<close>) are natural numbers. On the target
  every address of a region and every block size is below \<open>2 ^ 64\<close>, so none of the sums
  of the planner wraps; the only subtraction of the planner is guarded by a comparison
  and is the same on \<open>nat\<close>. The product \<open>alloc_granularity * g_num_alloc_blocks\<close> is
  taken as it is, without wrap-around. Bytes are \<open>char\<close>, a buffer is a \<open>string\<close>.
\<close>

datatype mem_state = MEM_COMMIT | MEM_RESERVE | MEM_FREE

datatype mem_type = MEM_IMAGE | MEM_MAPPED | MEM_PRIVATE

record MEMORY_BASIC_INFORMATION =
  BaseAddress :: nat
  AllocationBase :: nat
  RegionSize :: nat
  State :: mem_state
  Protect :: nat
  Type :: mem_type

text \<open>The struct \<open>block\<close>; its field \<open>size\<close> is \<open>bsize\<close> here.\<close>

record block =
  ptr :: nat
  bsize :: nat
  info_id :: nat

subsection \<open>Block planner\<close>

text \<open>
  Modelled from the spec: \<open>multiple_of_n\<close> is declared in \<open>common.h\<close>, which is not part
  of the sources; the spec gives \<open>overlap\<close> as \<open>pattern_len\<close> rounded up to a multiple of
  16 (\<open>sizeof(__m128i)\<close>).
\<close>

definition multiple_of_n :: "nat \<Rightarrow> nat \<Rightarrow> nat" where
  "multiple_of_n x n = ((x + n - 1) div n) * n"

definition extra_chunk :: "nat \<Rightarrow> nat" where
  "extra_chunk pattern_len = multiple_of_n pattern_len 16"

definition block_size :: "nat \<Rightarrow> nat \<Rightarrow> nat" where
  "block_size alloc_granularity g_num_alloc_blocks = alloc_granularity * g_num_alloc_blocks"

definition bytes_to_read_ideal :: "nat \<Rightarrow> nat \<Rightarrow> nat" where
  "bytes_to_read_ideal bs pattern_len = bs + extra_chunk pattern_len"

text \<open>
  The loop \<open>while (region_size)\<close> of \<open>find_pattern\<close>: \<open>bs\<close> is \<open>block_size\<close>, \<open>ideal\<close> is
  \<open>bytes_to_read_ideal\<close>, \<open>p\<close> is the cursor \<open>_p\<close>, \<open>iid\<close> is \<open>info.size() - 1\<close>. With
  \<open>bs = 0\<close> the loop never ends on a region of at least \<open>ideal\<close> bytes: the result is
  \<open>None\<close> then.
\<close>

partial_function (option) split_region ::
  "nat \<Rightarrow> nat \<Rightarrow> nat \<Rightarrow> nat \<Rightarrow> nat \<Rightarrow> nat \<Rightarrow> block list \<Rightarrow> block list option" where
  "split_region bs ideal p iid region_size bytes_offset blocks =
     (if region_size \<noteq> 0 then
        (if region_size \<ge> ideal then
           split_region bs ideal p iid (region_size - bs) (bytes_offset + bs)
             (blocks @ [\<lparr>ptr = p + bytes_offset, bsize = ideal, info_id = iid\<rparr>])
         else
           split_region bs ideal p iid 0 (bytes_offset + bs)
             (blocks @ [\<lparr>ptr = p + bytes_offset, bsize = region_size, info_id = iid\<rparr>]))
      else Some blocks)"

declare split_region.simps [code]

text \<open>
  The enumeration loop. The operating system is the list of records that the successive
  successful calls of \<open>VirtualQueryEx\<close> return before the first failing call; the cursor
  \<open>_p\<close> starts at \<open>NULL\<close> and advances by \<open>RegionSize\<close>.
\<close>

fun enumerate_regions ::
  "nat \<Rightarrow> nat \<Rightarrow> nat \<Rightarrow> MEMORY_BASIC_INFORMATION list \<Rightarrow> nat \<Rightarrow>
   MEMORY_BASIC_INFORMATION list \<Rightarrow> block list \<Rightarrow>
   (MEMORY_BASIC_INFORMATION list \<times> block list) option" where
  "enumerate_regions pattern_len bs ideal [] p info blocks = Some (info, blocks)"
| "enumerate_regions pattern_len bs ideal (i # rest) p info blocks =
     (if State i = MEM_COMMIT then
        (if RegionSize i < pattern_len then
           enumerate_regions pattern_len bs ideal rest (p + RegionSize i) info blocks
         else
           (case split_region bs ideal p (length (info @ [i]) - 1) (RegionSize i) 0 blocks of
              None \<Rightarrow> None
            | Some blocks' \<Rightarrow>
                enumerate_regions pattern_len bs ideal rest (p + RegionSize i) (info @ [i]) blocks'))
      else enumerate_regions pattern_len bs ideal rest (p + RegionSize i) info blocks)"

definition plan_blocks ::
  "nat \<Rightarrow> nat \<Rightarrow> nat \<Rightarrow> MEMORY_BASIC_INFORMATION list \<Rightarrow>
   (MEMORY_BASIC_INFORMATION list \<times> block list) option" where
  "plan_blocks alloc_granularity g_num_alloc_blocks pattern_len regs =
     (let bs = block_size alloc_granularity g_num_alloc_blocks in
      enumerate_regions pattern_len bs (bytes_to_read_ideal bs pattern_len) regs 0 [] [])"

text \<open>
  The blocks of one region in closed form, for a positive stride: full blocks while at
  least \<open>ideal\<close> bytes remain, then one block with the rest.
\<close>

function region_blocks :: "nat \<Rightarrow> nat \<Rightarrow> nat \<Rightarrow> nat \<Rightarrow> nat \<Rightarrow> nat \<Rightarrow> block list" where
  "region_blocks bs ideal p iid r off =
     (if r = 0 then []
      else if ideal \<le> r \<and> 0 < bs then
        \<lparr>ptr = p + off, bsize = ideal, info_id = iid\<rparr> # region_blocks bs ideal p iid (r - bs) (off + bs)
      else [\<lparr>ptr = p + off, bsize = r, info_id = iid\<rparr>])"
  by pat_completeness auto
termination
  by (relation "measure (\<lambda>(bs, ideal, p, iid, r, off). r)") auto

declare region_blocks.simps [simp del]

text \<open>
  The records kept and the blocks planned by the walk in closed form: \<open>n\<close> is the number of
  records kept before.
\<close>

definition retained :: "nat \<Rightarrow> MEMORY_BASIC_INFORMATION \<Rightarrow> bool" where
  "retained pattern_len i = (State i = MEM_COMMIT \<and> \<not> RegionSize i < pattern_len)"

fun planned ::
  "nat \<Rightarrow> nat \<Rightarrow> nat \<Rightarrow> MEMORY_BASIC_INFORMATION list \<Rightarrow> nat \<Rightarrow> nat \<Rightarrow> block list" where
  "planned pattern_len bs ideal [] p n = []"
| "planned pattern_len bs ideal (i # rest) p n =
     (if retained pattern_len i then
        region_blocks bs ideal p n (RegionSize i) 0
        @ planned pattern_len bs ideal rest (p + RegionSize i) (Suc n)
      else planned pattern_len bs ideal rest (p + RegionSize i) n)"

text \<open>Start and end of the address range of a block, and the length of the intersection of two ranges.\<close>

definition block_end :: "block \<Rightarrow> nat" where
  "block_end b = ptr b + bsize b"

definition inter_len :: "block \<Rightarrow> block \<Rightarrow> nat" where
  "inter_len a b = min (block_end a) (block_end b) - max (ptr a) (ptr b)"

subsection \<open>Reader-matcher worker\<close>

text \<open>
  Modelled from the spec: \<open>strstr_u8\<close> is declared in \<open>common.h\<close>, which is not part of
  the sources; the spec asks for a substring search on raw bytes. The model returns the
  offset of the first occurrence of the pattern in the window, \<open>None\<close> for \<open>NULL\<close>.
\<close>

fun strstr_u8 :: "string \<Rightarrow> string \<Rightarrow> nat option" where
  "strstr_u8 [] pat = (if pat = [] then Some 0 else None)"
| "strstr_u8 (c # cs) pat =
     (if take (length pat) (c # cs) = pat then Some 0 else map_option Suc (strstr_u8 cs pat))"

text \<open>
  The loop \<open>while (buffer_size >= pattern_len)\<close>: \<open>buffer_ptr\<close> is the offset of the
  pointer in the buffer, \<open>p\<close> the block's \<open>ptr\<close>, \<open>m\<close> the vector \<open>match[i]\<close>. With an
  empty pattern \<open>buffer_size\<close> would wrap below zero and the loop would leave the buffer;
  the model does not return then (\<open>None\<close>).
\<close>

partial_function (option) match_loop ::
  "string \<Rightarrow> string \<Rightarrow> nat \<Rightarrow> nat \<Rightarrow> nat \<Rightarrow> nat list \<Rightarrow> nat list option" where
  "match_loop buffer pattern p buffer_ptr buffer_size m =
     (if buffer_size \<ge> length pattern then
        (case strstr_u8 (take buffer_size (drop buffer_ptr buffer)) pattern of
           None \<Rightarrow> Some m
         | Some k \<Rightarrow>
             match_loop buffer pattern p (buffer_ptr + k + 1) (buffer_size - (k + 1))
               (m @ [p + (buffer_ptr + k)]))
      else Some m)"

declare match_loop.simps [code]

text \<open>
  The offsets at which the pattern occurs in a byte string, in ascending order.
\<close>

definition occurrences :: "string \<Rightarrow> string \<Rightarrow> nat list" where
  "occurrences pat w = filter (\<lambda>i. take (length pat) (drop i w) = pat) [0..<length w]"

text \<open>What \<open>ReadProcessMemory\<close> leaves behind: its return value, \<open>bytes_read\<close>, the buffer.\<close>

record read_result =
  res :: bool
  bytes_read :: nat
  buffer :: string

text \<open>The steps of a worker on the shared counter and the condition variable.\<close>

datatype gate_action = Acquire nat | Subtract nat | Notify_all

text \<open>Lines written to the console.\<close>

datatype line =
  Searching_committed_memory
| Module_name string
| Region_info MEMORY_BASIC_INFORMATION
| Failed_reading
| Not_read_entirely nat nat
| No_matches_found
| Approximate_number nat
| Match_at nat
| Blank

record worker_result =
  matches :: "nat list"
  actions :: "gate_action list"
  diags :: "line list"

definition search_block :: "string \<Rightarrow> block \<Rightarrow> read_result \<Rightarrow> nat list option" where
  "search_block pattern b r =
     (if bytes_read r \<ge> length pattern
      then match_loop (buffer r) pattern (ptr b) 0 (bytes_read r) []
      else Some [])"

definition region_lines :: "(nat \<Rightarrow> string option) \<Rightarrow> MEMORY_BASIC_INFORMATION \<Rightarrow> line list" where
  "region_lines module_file_name r_info =
     (if Type r_info = MEM_IMAGE then
        (case module_file_name (AllocationBase r_info) of None \<Rightarrow> [] | Some n \<Rightarrow> [Module_name n])
      else []) @ [Region_info r_info]"

text \<open>Lines 136 to 158: search the bytes read, subtract, notify.\<close>

definition search_and_release ::
  "string \<Rightarrow> block \<Rightarrow> read_result \<Rightarrow> line list \<Rightarrow> worker_result option" where
  "search_and_release pattern b r d =
     (case search_block pattern b r of
        None \<Rightarrow> None
      | Some m \<Rightarrow>
          Some \<lparr>matches = m,
                actions = [Acquire (bsize b), Subtract (bsize b), Notify_all],
                diags = d\<rparr>)"

text \<open>
  One iteration of the parallel loop, for block \<open>b\<close> with region record \<open>r_info\<close> and the
  outcome \<open>r\<close> of its read. Each \<open>continue\<close> of the source ends the iteration after the
  subtraction.
\<close>

definition worker ::
  "bool \<Rightarrow> (nat \<Rightarrow> string option) \<Rightarrow> string \<Rightarrow> MEMORY_BASIC_INFORMATION \<Rightarrow> block \<Rightarrow>
   read_result \<Rightarrow> worker_result option" where
  "worker g_show_failed_readings module_file_name pattern r_info b r =
     (let bytes_to_read = bsize b in
      if \<not> res r \<or> bytes_read r \<noteq> bytes_to_read then
        (if \<not> g_show_failed_readings then
           (if \<not> res r then
              Some \<lparr>matches = [], actions = [Acquire bytes_to_read, Subtract bytes_to_read],
                    diags = []\<rparr>
            else search_and_release pattern b r [])
         else
           (if \<not> res r then
              Some \<lparr>matches = [], actions = [Acquire bytes_to_read, Subtract bytes_to_read],
                    diags = region_lines module_file_name r_info @ [Failed_reading]\<rparr>
            else
              search_and_release pattern b r
                (region_lines module_file_name r_info
                 @ [Not_read_entirely (bytes_to_read - bytes_read r) bytes_to_read])))
      else search_and_release pattern b r [])"

subsection \<open>Memory-budget gate\<close>

text \<open>
  The shared counter \<open>g_memory_usage_bytes\<close>, compared with the \<open>LONG64\<close> limit, is an
  integer. \<open>checked_out\<close> is a ghost field: the sizes added and not yet subtracted.
  A step is \<open>None\<close> when it cannot happen: an \<open>Acquire\<close> while the predicate of the wait
  is false (the worker sleeps), a \<open>Subtract\<close> of a size no worker holds.
\<close>

record gate =
  g_memory_usage_bytes :: int
  checked_out :: "nat list"

fun gate_step :: "int \<Rightarrow> gate_action \<Rightarrow> gate \<Rightarrow> gate option" where
  "gate_step max_memory_usage (Acquire n) g =
     (if g_memory_usage_bytes g < max_memory_usage
      then Some \<lparr>g_memory_usage_bytes = g_memory_usage_bytes g + int n,
                 checked_out = n # checked_out g\<rparr>
      else None)"
| "gate_step max_memory_usage (Subtract n) g =
     (if n \<in> set (checked_out g)
      then Some \<lparr>g_memory_usage_bytes = g_memory_usage_bytes g - int n,
                 checked_out = remove1 n (checked_out g)\<rparr>
      else None)"
| "gate_step max_memory_usage Notify_all g = Some g"

text \<open>A schedule: the gate steps of all workers in the order in which they happen.\<close>

fun gate_run :: "int \<Rightarrow> gate_action list \<Rightarrow> gate \<Rightarrow> gate option" where
  "gate_run lim [] g = Some g"
| "gate_run lim (a # as) g =
     (case gate_step lim a g of None \<Rightarrow> None | Some g' \<Rightarrow> gate_run lim as g')"

definition gate_init :: gate where
  "gate_init = \<lparr>g_memory_usage_bytes = 0, checked_out = []\<rparr>"

fun acquired :: "gate_action list \<Rightarrow> nat list" where
  "acquired [] = []"
| "acquired (Acquire n # as) = n # acquired as"
| "acquired (a # as) = acquired as"

text \<open>The invariant of the gate for blocks of at most \<open>B\<close> bytes.\<close>

definition gate_inv :: "int \<Rightarrow> nat \<Rightarrow> gate \<Rightarrow> bool" where
  "gate_inv lim B g =
     (g_memory_usage_bytes g = int (sum_list (checked_out g)) \<and>
      (checked_out g \<noteq> [] \<longrightarrow> g_memory_usage_bytes g < lim + int B))"

subsection \<open>Result aggregator\<close>

text \<open>
  The loop over \<open>match[i]\<close> with the variable \<open>prev_match\<close>, and the loop over the blocks.
  The \<open>info_id\<close> of a planned block is an index of \<open>info\<close> (lemma \<open>planned_info_id_bound\<close>).
\<close>

fun print_matches :: "nat \<Rightarrow> nat list \<Rightarrow> nat \<times> line list" where
  "print_matches prev_match [] = (prev_match, [])"
| "print_matches prev_match (m # ms) =
     (if prev_match = m then print_matches prev_match ms
      else (let (q, out) = print_matches m ms in (q, Match_at m # out)))"

fun print_blocks ::
  "(nat \<Rightarrow> string option) \<Rightarrow> MEMORY_BASIC_INFORMATION list \<Rightarrow> nat \<Rightarrow>
   (block \<times> nat list) list \<Rightarrow> line list" where
  "print_blocks module_file_name info prev_match [] = []"
| "print_blocks module_file_name info prev_match ((b, ms) # rest) =
     (if ms \<noteq> [] then
        (let (q, out) = print_matches prev_match ms in
         region_lines module_file_name (info ! info_id b) @ [Blank] @ out @ [Blank]
         @ print_blocks module_file_name info q rest)
      else print_blocks module_file_name info prev_match rest)"

text \<open>
  The part of \<open>find_pattern\<close> after the parallel loop. \<open>too_many_results\<close> is declared in
  \<open>common.h\<close> and is a parameter; what it prints itself is not modelled.
\<close>

definition aggregate ::
  "(nat \<Rightarrow> bool) \<Rightarrow> (nat \<Rightarrow> string option) \<Rightarrow> MEMORY_BASIC_INFORMATION list \<Rightarrow>
   block list \<Rightarrow> nat list list \<Rightarrow> line list" where
  "aggregate too_many_results module_file_name info blocks match =
     (let num_matches = sum_list (map length match) in
      if num_matches = 0 then [No_matches_found]
      else if too_many_results num_matches then []
      else Approximate_number num_matches
           # print_blocks module_file_name info (2 ^ 64 - 1) (zip blocks match))"

definition printed_addresses :: "line list \<Rightarrow> nat list" where
  "printed_addresses ls = concat (map (\<lambda>l. case l of Match_at a \<Rightarrow> [a] | _ \<Rightarrow> []) ls)"

subsection \<open>The scan\<close>

text \<open>The settings read by \<open>find_pattern\<close> and the target process.\<close>

record settings =
  alloc_granularity :: nat
  g_num_alloc_blocks :: nat
  g_memory_limit :: int
  g_show_failed_readings :: bool
  too_many_results :: "nat \<Rightarrow> bool"

record target =
  regions :: "MEMORY_BASIC_INFORMATION list"
  ReadProcessMemory :: "block \<Rightarrow> read_result"
  module_file_name :: "nat \<Rightarrow> string option"

text \<open>
  The parallel loop run by one thread (\<open>num_threads = 1\<close>), block after block. A worker
  whose \<open>Acquire\<close> cannot happen sleeps for ever, since no other thread is there to
  subtract: the scan does not return (\<open>None\<close>). The vector \<open>match[i]\<close> of a block depends
  on its read alone, so with more threads the vectors are the same whenever the loop ends.
\<close>

fun run_blocks ::
  "settings \<Rightarrow> target \<Rightarrow> string \<Rightarrow> MEMORY_BASIC_INFORMATION list \<Rightarrow> block list \<Rightarrow> gate \<Rightarrow>
   ((block \<times> worker_result) list \<times> gate) option" where
  "run_blocks cfg tgt pattern info [] g = Some ([], g)"
| "run_blocks cfg tgt pattern info (b # bs) g =
     (case worker (g_show_failed_readings cfg) (module_file_name tgt) pattern (info ! info_id b) b
             (ReadProcessMemory tgt b) of
        None \<Rightarrow> None
      | Some w \<Rightarrow>
          (case gate_run (g_memory_limit cfg) (actions w) g of
             None \<Rightarrow> None
           | Some g' \<Rightarrow>
               (case run_blocks cfg tgt pattern info bs g' of
                  None \<Rightarrow> None
                | Some (ws, g'') \<Rightarrow> Some ((b, w) # ws, g''))))"

text \<open>
  The scan: \<open>reads\<close> lists the blocks whose read was issued, in order, \<open>console\<close> the
  lines printed. \<open>find_pattern\<close> compares nothing with \<open>g_memory_limit\<close> before the
  parallel loop.
\<close>

record scan_result =
  reads :: "block list"
  console :: "line list"

definition find_pattern :: "settings \<Rightarrow> target \<Rightarrow> string \<Rightarrow> scan_result option" where
  "find_pattern cfg tgt pattern =
     (case plan_blocks (alloc_granularity cfg) (g_num_alloc_blocks cfg) (length pattern)
             (regions tgt) of
        None \<Rightarrow> None
      | Some (info, blocks) \<Rightarrow>
          (case run_blocks cfg tgt pattern info blocks gate_init of
             None \<Rightarrow> None
           | Some (ws, g) \<Rightarrow>
               Some \<lparr>reads = map fst ws,
                     console = [Searching_committed_memory] @ concat (map (diags \<circ> snd) ws)
                       @ aggregate (too_many_results cfg) (module_file_name tgt) info blocks
                           (map (matches \<circ> snd) ws)\<rparr>))"

text \<open>A read that returns in full from the memory \<open>mem\<close> of the target.\<close>

definition full_read :: "(nat \<Rightarrow> char) \<Rightarrow> block \<Rightarrow> read_result" where
  "full_read mem b = \<lparr>res = True, bytes_read = bsize b, buffer = map mem [ptr b ..< ptr b + bsize b]\<rparr>"

text \<open>The pattern occurs at address \<open>a\<close> of the memory.\<close>

definition occurs_at :: "(nat \<Rightarrow> char) \<Rightarrow> string \<Rightarrow> nat \<Rightarrow> bool" where
  "occurs_at mem pat a = (map mem [a ..< a + length pat] = pat)"

text \<open>The cursor \<open>_p\<close> at which the walk reaches the \<open>k\<close>-th record.\<close>

definition region_cursor :: "MEMORY_BASIC_INFORMATION list \<Rightarrow> nat \<Rightarrow> nat" where
  "region_cursor regs k = sum_list (map RegionSize (take k regs))"

section \<open>Data model of the command loop\<close>

text \<open>
  The enumeration \<open>input_command\<close> is declared in \<open>common.h\<close>; these are the members that
  the source file names.
\<close>

datatype input_command =
  c_not_set | c_continue | c_quit_program | c_help | c_search_pattern
| c_search_pattern_in_registers | c_list_pids | c_list_modules | c_list_threads
| c_travers_heap | c_travers_heap_calc_entropy | c_travers_heap_blocks

text \<open>
  What the loop writes and does: \<open>Puts\<close> for a line of fixed text (the texts
  \<open>unknown_command\<close> and \<open>command_not_implemented\<close> are declared in \<open>common.h\<close>),
  \<open>Help_text\<close> for the two help printers, \<open>Prompt\<close> for the prompt, \<open>Executed\<close> for the
  work of \<open>execute_command\<close> on the operating system.
\<close>

datatype repl_line =
  Puts string
| Puts_unknown_command
| Puts_command_not_implemented
| Help_text
| Prompt
| Executed input_command nat

text \<open>
  A command line is the content of the \<open>char\<close> array up to the terminating zero byte;
  \<open>cmd[i]\<close> at the end of the line reads that zero byte. \<open>parse_command\<close> never reads
  beyond it.
\<close>

definition char_at :: "string \<Rightarrow> nat \<Rightarrow> char" where
  "char_at cmd i = (if i < length cmd then cmd ! i else CHR 0x00)"

subsection \<open>The library function strtoul\<close>

text \<open>
  \<open>strtoul\<close> of the C library, for \<open>unsigned long\<close> of 32 bits: white space, an optional
  sign, for base 16 an optional prefix \<open>0x\<close>, then the digits of the base. The result is
  the value and the number of characters consumed; that number is 0 when no digit was
  found (\<open>end == args\<close>).
\<close>

definition isspace :: "char \<Rightarrow> bool" where
  "isspace c = (c \<in> set [CHR '' '', CHR 0x09, CHR 0x0A, CHR 0x0B, CHR 0x0C, CHR 0x0D])"

definition digit_of :: "char \<Rightarrow> nat option" where
  "digit_of c =
     (let n = (of_char c :: nat) in
      if 48 \<le> n \<and> n \<le> 57 then Some (n - 48)
      else if 97 \<le> n \<and> n \<le> 122 then Some (n - 87)
      else if 65 \<le> n \<and> n \<le> 90 then Some (n - 55)
      else None)"

fun digits :: "nat \<Rightarrow> string \<Rightarrow> nat \<Rightarrow> nat \<Rightarrow> nat \<times> nat" where
  "digits base [] v k = (v, k)"
| "digits base (c # cs) v k =
     (case digit_of c of
        None \<Rightarrow> (v, k)
      | Some d \<Rightarrow> if d < base then digits base cs (v * base + d) (Suc k) else (v, k))"

definition hex_prefix :: "string \<Rightarrow> bool" where
  "hex_prefix s =
     (case s of
        z # x # d # _ \<Rightarrow>
          z = CHR ''0'' \<and> (x = CHR ''x'' \<or> x = CHR ''X'') \<and>
          (case digit_of d of None \<Rightarrow> False | Some v \<Rightarrow> v < 16)
      | _ \<Rightarrow> False)"

definition strtoul :: "string \<Rightarrow> nat \<Rightarrow> nat \<times> nat" where
  "strtoul s base =
     (let ws = length (takeWhile isspace s);
          s1 = dropWhile isspace s;
          neg = (s1 \<noteq> [] \<and> hd s1 = CHR ''-'');
          sg = (if s1 \<noteq> [] \<and> (hd s1 = CHR ''-'' \<or> hd s1 = CHR ''+'') then 1 else 0);
          s2 = drop sg s1;
          px = (if base = 16 \<and> hex_prefix s2 then 2 else 0);
          (v, k) = digits base (drop px s2) 0 0;
          u = (if 4294967295 < v then 4294967295 else v)
      in if k = 0 then (0, 0)
         else ((if neg then (4294967296 - u) mod 4294967296 else u), ws + sg + px + k))"

subsection \<open>parse_command, execute_command and the loop\<close>

text \<open>
  \<open>skip_to_args\<close>, \<open>is_hex\<close> and \<open>parse_command_common\<close> are declared in \<open>common.h\<close> and are
  parameters: \<open>skip_to_args\<close> returns the offset of the argument in the line or \<open>None\<close> for
  \<open>nullptr\<close>. The state is \<open>ctx->pid\<close>, a 32-bit \<open>DWORD\<close>. The result is the command, the
  new \<open>pid\<close> and the lines written.
\<close>

definition parse_command ::
  "(string \<Rightarrow> nat \<Rightarrow> nat option) \<Rightarrow> (string \<Rightarrow> nat \<Rightarrow> bool) \<Rightarrow> nat \<Rightarrow> string \<Rightarrow>
   input_command \<times> nat \<times> repl_line list" where
  "parse_command skip_to_args is_hex pid cmd =
     (if char_at cmd 0 = CHR ''p'' then
        (let pid_len = length cmd in
         case skip_to_args cmd pid_len of
           None \<Rightarrow> (c_continue, pid, [Puts ''PID missing.''])
         | Some a \<Rightarrow>
             (let args = drop a cmd;
                  pid_len = pid_len - a;
                  (v, consumed) = strtoul args (if is_hex args pid_len then 16 else 10)
              in if consumed = 0
                 then (c_quit_program, pid, [Puts ''Invalid PID! Exiting...'', Puts []])
                 else (c_continue, v, [Puts []])))
      else if char_at cmd 0 = CHR ''l'' then
        (if char_at cmd 1 = CHR ''p'' then (c_list_pids, pid, [Puts []])
         else if char_at cmd 1 = CHR ''M'' then (c_list_modules, pid, [Puts []])
         else if char_at cmd 1 = CHR ''t'' then (c_list_threads, pid, [Puts []])
         else (c_continue, pid, [Puts_unknown_command, Puts []]))
      else if char_at cmd 0 = CHR ''t'' \<and> char_at cmd 1 = CHR ''h'' then
        (if char_at cmd 2 = CHR 0x00 then (c_travers_heap, pid, [Puts []])
         else if char_at cmd 2 = CHR ''e'' then (c_travers_heap_calc_entropy, pid, [Puts []])
         else if char_at cmd 2 = CHR ''b'' then (c_travers_heap_blocks, pid, [Puts []])
         else (c_continue, pid, [Puts_unknown_command, Puts []]))
      else (c_continue, pid, [Puts_unknown_command, Puts []]))"

text \<open>
  \<open>execute_command\<close>: the guard on the selected process, then the \<open>switch\<close>. The work
  of a command on the operating system is a single \<open>Executed\<close> entry here.
\<close>

definition execute_command :: "input_command \<Rightarrow> nat \<Rightarrow> repl_line list" where
  "execute_command cmd pid =
     (if cmd \<noteq> c_help \<and> cmd \<noteq> c_list_pids \<and> pid = 4294967295
      then [Puts ''Select the PID first!'']
      else
        (case cmd of
           c_help \<Rightarrow> [Help_text]
         | c_search_pattern \<Rightarrow> [Executed cmd pid]
         | c_search_pattern_in_registers \<Rightarrow> [Puts_command_not_implemented, Puts []]
         | c_list_pids \<Rightarrow> [Executed cmd pid]
         | c_list_modules \<Rightarrow> [Executed cmd pid]
         | c_list_threads \<Rightarrow> [Executed cmd pid]
         | c_travers_heap \<Rightarrow> [Executed cmd pid]
         | c_travers_heap_calc_entropy \<Rightarrow> [Executed cmd pid]
         | c_travers_heap_blocks \<Rightarrow> [Executed cmd pid]
         | _ \<Rightarrow> [Puts_unknown_command])
        @ [Puts ''====================================''])"

text \<open>
  The loop of \<open>run_process_inspection\<close> over the lines that the user enters. The result
  is the value returned, \<open>None\<close> while the loop still waits for input, with the final
  \<open>pid\<close> and the lines written.
\<close>

fun command_loop ::
  "(string \<Rightarrow> input_command) \<Rightarrow> (string \<Rightarrow> nat \<Rightarrow> nat option) \<Rightarrow> (string \<Rightarrow> nat \<Rightarrow> bool) \<Rightarrow>
   string list \<Rightarrow> nat \<Rightarrow> repl_line list \<Rightarrow> int option \<times> nat \<times> repl_line list" where
  "command_loop parse_command_common skip_to_args is_hex [] pid out = (None, pid, out @ [Prompt])"
| "command_loop parse_command_common skip_to_args is_hex (l # rest) pid out =
     (let (cmd, pid', o1) =
            (if parse_command_common l = c_not_set
             then parse_command skip_to_args is_hex pid l
             else (parse_command_common l, pid, [Puts []]))
      in if cmd = c_quit_program then (Some 0, pid', out @ [Prompt] @ o1)
         else if cmd = c_continue then
           command_loop parse_command_common skip_to_args is_hex rest pid' (out @ [Prompt] @ o1)
         else
           command_loop parse_command_common skip_to_args is_hex rest pid'
             (out @ [Prompt] @ o1 @ execute_command cmd pid'))"

definition run_process_inspection ::
  "(string \<Rightarrow> input_command) \<Rightarrow> (string \<Rightarrow> nat \<Rightarrow> nat option) \<Rightarrow> (string \<Rightarrow> nat \<Rightarrow> bool) \<Rightarrow>
   string list \<Rightarrow> int option \<times> nat \<times> repl_line list" where
  "run_process_inspection parse_command_common skip_to_args is_hex input =
     command_loop parse_command_common skip_to_args is_hex input 4294967295 []"

section \<open>Data model of the thread listing\<close>

record THREADENTRY32 =
  th32ThreadID :: nat
  th32OwnerProcessID :: nat
  tpBasePri :: int
  tpDeltaPri :: int

text \<open>The struct \<open>stack_info\<close>; its field \<open>size\<close> is \<open>ssize\<close> here.\<close>

record stack_info =
  sp :: nat
  ssize :: nat

text \<open>
  The operating system as the listing sees it: the thread snapshot (\<open>None\<close> for an invalid
  handle, the empty list when \<open>Thread32First\<close> fails), whether the process and each
  thread can be opened, and for each thread the result of \<open>VirtualQueryEx\<close> at its stack
  pointer (\<open>None\<close> when the call fails).
\<close>

record thread_env =
  snapshot :: "THREADENTRY32 list option"
  OpenProcess :: "nat \<Rightarrow> bool"
  OpenThread :: "nat \<Rightarrow> bool"
  VirtualQueryEx_sp :: "nat \<Rightarrow> MEMORY_BASIC_INFORMATION option"

datatype thread_line =
  Failed_acquiring_stack_base
| Thread_info nat int int nat nat

definition get_thread_stack_base ::
  "MEMORY_BASIC_INFORMATION option \<Rightarrow> stack_info \<Rightarrow> bool \<times> stack_info" where
  "get_thread_stack_base q r =
     (case q of
        None \<Rightarrow> (False, r)
      | Some i \<Rightarrow>
          if State i = MEM_COMMIT \<and> Type i = MEM_PRIVATE
          then (True, \<lparr>sp = BaseAddress i, ssize = RegionSize i\<rparr>)
          else (False, r))"

text \<open>The body of the \<open>do\<close> loop for one entry of the owner: the lines and the new \<open>si\<close>.\<close>

definition thread_step ::
  "thread_env \<Rightarrow> THREADENTRY32 \<Rightarrow> stack_info \<Rightarrow> thread_line list \<times> stack_info" where
  "thread_step env te si =
     (let (msgs, si') =
            (if OpenThread env (th32ThreadID te) then
               (let (found, s) = get_thread_stack_base (VirtualQueryEx_sp env (th32ThreadID te)) si
                in (if \<not> found then [Failed_acquiring_stack_base] else [], s))
             else ([], si))
      in (msgs @ [Thread_info (th32ThreadID te) (tpBasePri te) (tpDeltaPri te) (sp si') (ssize si')],
          si'))"

fun thread_loop :: "thread_env \<Rightarrow> nat \<Rightarrow> THREADENTRY32 list \<Rightarrow> stack_info \<Rightarrow> thread_line list" where
  "thread_loop env dw_owner_pid [] si = []"
| "thread_loop env dw_owner_pid (te # rest) si =
     (if th32OwnerProcessID te = dw_owner_pid then
        (let (ls, si') = thread_step env te si in ls @ thread_loop env dw_owner_pid rest si')
      else thread_loop env dw_owner_pid rest si)"

definition list_process_threads :: "thread_env \<Rightarrow> nat \<Rightarrow> bool \<times> thread_line list" where
  "list_process_threads env dw_owner_pid =
     (case snapshot env of
        None \<Rightarrow> (False, [])
      | Some ts \<Rightarrow>
          if ts = [] then (False, [])
          else if \<not> OpenProcess env dw_owner_pid then (False, [])
          else (True, thread_loop env dw_owner_pid ts \<lparr>sp = 0, ssize = 0\<rparr>))"

text \<open>The thread id, stack base and stack size of each thread printed.\<close>

definition stack_lines :: "thread_line list \<Rightarrow> (nat \<times> nat \<times> nat) list" where
  "stack_lines ls =
     concat (map (\<lambda>l. case l of Thread_info t bp dp b s \<Rightarrow> [(t, b, s)] | _ \<Rightarrow> []) ls)"

text \<open>
  In the words of the claim: the stack lookup of a thread succeeds when the thread can be
  opened and the region at its stack pointer is found, committed and private;
  \<open>most_recent_stack\<close> is the stack of the last entry of the owner in a list of entries
  whose lookup succeeded, and \<open>none\<close> if there is no such entry.
\<close>

definition lookup_ok :: "thread_env \<Rightarrow> THREADENTRY32 \<Rightarrow> bool" where
  "lookup_ok env te =
     (OpenThread env (th32ThreadID te) \<and>
      (case VirtualQueryEx_sp env (th32ThreadID te) of
         None \<Rightarrow> False
       | Some i \<Rightarrow> State i = MEM_COMMIT \<and> Type i = MEM_PRIVATE))"

definition stack_of :: "thread_env \<Rightarrow> THREADENTRY32 \<Rightarrow> stack_info" where
  "stack_of env te =
     (case VirtualQueryEx_sp env (th32ThreadID te) of
        None \<Rightarrow> \<lparr>sp = 0, ssize = 0\<rparr>
      | Some i \<Rightarrow> \<lparr>sp = BaseAddress i, ssize = RegionSize i\<rparr>)"

definition most_recent_stack ::
  "thread_env \<Rightarrow> nat \<Rightarrow> THREADENTRY32 list \<Rightarrow> stack_info \<Rightarrow> stack_info" where
  "most_recent_stack env pid ts none =
     (case filter (\<lambda>te. th32OwnerProcessID te = pid \<and> lookup_ok env te) (rev ts) of
        [] \<Rightarrow> none
      | te # _ \<Rightarrow> stack_of env te)"

section \<open>Properties of the planner\<close>

lemma split_region_closed:
  "0 < bs \<Longrightarrow> split_region bs ideal p iid r off acc = Some (acc @ region_blocks bs ideal p iid r off)"
proof (induction bs ideal p iid r off arbitrary: acc rule: region_blocks.induct)
  case (1 bs ideal p iid r off)
  show ?case
  proof (cases "r = 0")
    case True
    then show ?thesis by (subst split_region.simps, subst region_blocks.simps) simp
  next
    case nz: False
    show ?thesis
    proof (cases "ideal \<le> r")
      case True
      with nz 1 show ?thesis
        by (subst split_region.simps, subst region_blocks.simps) simp
    next
      case False
      have z: "split_region bs ideal p iid 0 o2 a2 = Some a2" for o2 a2
        by (subst split_region.simps) simp
      from False nz show ?thesis
        by (subst split_region.simps, subst region_blocks.simps) (simp add: z)
    qed
  qed
qed

lemma successively_nth:
  "successively P xs \<Longrightarrow> Suc i < length xs \<Longrightarrow> P (xs ! i) (xs ! Suc i)"
proof (induction P xs arbitrary: i rule: successively.induct)
  case (3 P x y xs)
  then show ?case by (cases i) auto
qed auto

lemma region_blocks_head:
  "0 < bs \<Longrightarrow> region_blocks bs ideal p iid r off = b # rest \<Longrightarrow>
   ptr b = p + off \<and> bsize b = min r ideal \<and> info_id b = iid"
  by (subst (asm) region_blocks.simps) (auto split: if_splits)

lemma region_blocks_info_id:
  "b \<in> set (region_blocks bs ideal p iid r off) \<Longrightarrow> info_id b = iid"
  by (induction bs ideal p iid r off rule: region_blocks.induct)
     (subst (asm) (2) region_blocks.simps, auto split: if_splits)

lemma region_blocks_overlap:
  "0 < bs \<Longrightarrow> successively (\<lambda>a b. inter_len a b = ov) (region_blocks bs (bs + ov) p iid r off)"
proof (induction bs "bs + ov" p iid r off rule: region_blocks.induct)
  case (1 bs p iid r off)
  show ?case
  proof (cases "r \<noteq> 0 \<and> bs + ov \<le> r")
    case False
    then show ?thesis by (subst region_blocks.simps) auto
  next
    case True
    let ?rest = "region_blocks bs (bs + ov) p iid (r - bs) (off + bs)"
    let ?a = "\<lparr>ptr = p + off, bsize = bs + ov, info_id = iid\<rparr>"
    have eq: "region_blocks bs (bs + ov) p iid r off = ?a # ?rest"
      using True 1(2) by (subst region_blocks.simps) simp
    have ih: "successively (\<lambda>a b. inter_len a b = ov) ?rest"
      using True 1 by simp
    have hd: "inter_len ?a b = ov" if "?rest = b # tl" for b tl
    proof -
      from region_blocks_head[OF 1(2) that]
      have "ptr b = p + off + bs" "bsize b = min (r - bs) (bs + ov)" by auto
      with True show ?thesis by (auto simp: inter_len_def block_end_def min_def)
    qed
    show ?thesis
      unfolding eq using ih hd by (cases ?rest) auto
  qed
qed

lemma enumerate_regions_closed:
  "0 < bs \<Longrightarrow>
   enumerate_regions pattern_len bs ideal regs p info blocks =
     Some (info @ filter (retained pattern_len) regs,
           blocks @ planned pattern_len bs ideal regs p (length info))"
  by (induction regs arbitrary: p info blocks)
     (simp_all add: retained_def split_region_closed)

lemma plan_blocks_closed:
  "0 < gran * nblk \<Longrightarrow>
   plan_blocks gran nblk pattern_len regs =
     Some (filter (retained pattern_len) regs,
           planned pattern_len (gran * nblk) (gran * nblk + extra_chunk pattern_len) regs 0 0)"
  by (simp add: plan_blocks_def block_size_def bytes_to_read_ideal_def
      enumerate_regions_closed Let_def)

lemma region_blocks_bsize:
  "0 < bs \<Longrightarrow> b \<in> set (region_blocks bs ideal p iid r off) \<Longrightarrow> bsize b \<le> ideal"
proof (induction bs ideal p iid r off rule: region_blocks.induct)
  case (1 bs ideal p iid r off)
  from 1(3) show ?case
    by (subst (asm) region_blocks.simps) (use 1(1,2) in \<open>auto split: if_splits\<close>)
qed

lemma planned_bsize:
  "0 < bs \<Longrightarrow> b \<in> set (planned pattern_len bs ideal regs p n) \<Longrightarrow> bsize b \<le> ideal"
  by (induction regs arbitrary: p n) (auto dest: region_blocks_bsize split: if_splits)

lemma extra_chunk_round_up:
  "16 dvd extra_chunk n \<and> n \<le> extra_chunk n \<and> extra_chunk n < n + 16"
  unfolding extra_chunk_def multiple_of_n_def by presburger

lemma planned_info_id:
  "b \<in> set (planned pattern_len bs ideal regs p n) \<Longrightarrow> n \<le> info_id b"
proof (induction regs arbitrary: p n)
  case (Cons i rest)
  then show ?case
    by (fastforce dest: region_blocks_info_id split: if_splits)
qed simp

lemma planned_info_id_bound:
  "b \<in> set (planned pattern_len bs ideal regs p n) \<Longrightarrow>
   info_id b < n + length (filter (retained pattern_len) regs)"
proof (induction regs arbitrary: p n)
  case Nil
  then show ?case by simp
next
  case (Cons i rest)
  then show ?case
    by (fastforce dest: region_blocks_info_id split: if_splits)
qed

lemma planned_overlap:
  assumes "0 < bs"
  shows "successively (\<lambda>a b. info_id a = info_id b \<longrightarrow> inter_len a b = ov)
           (planned pattern_len bs (bs + ov) regs p n)"
proof (induction regs arbitrary: p n)
  case Nil
  show ?case by simp
next
  case (Cons i rest)
  let ?P = "\<lambda>a b. info_id a = info_id b \<longrightarrow> inter_len a b = ov"
  let ?xs = "region_blocks bs (bs + ov) p n (RegionSize i) 0"
  let ?ys = "planned pattern_len bs (bs + ov) rest (p + RegionSize i) (Suc n)"
  show ?case
  proof (cases "retained pattern_len i")
    case False
    then show ?thesis using Cons.IH by simp
  next
    case True
    have xs: "successively ?P ?xs"
      by (rule successively_mono[OF region_blocks_overlap[OF assms]]) simp
    have ys: "successively ?P ?ys" by (rule Cons.IH)
    have mid: "?P (last ?xs) (hd ?ys)" if "?xs \<noteq> []" "?ys \<noteq> []"
    proof -
      from that have "last ?xs \<in> set ?xs" "hd ?ys \<in> set ?ys" by simp_all
      then have "info_id (last ?xs) = n" "Suc n \<le> info_id (hd ?ys)"
        by (auto dest: region_blocks_info_id planned_info_id)
      then show ?thesis by simp
    qed
    from True xs ys mid show ?thesis
      by (auto simp: successively_append_iff)
  qed
qed

text \<open>
  Claim C4. With a positive stride the walk returns, and any two consecutive blocks that
  it planned for the same region (equal \<open>info_id\<close>) share exactly \<open>overlap\<close> bytes, where
  \<open>overlap\<close> is \<open>pattern_len\<close> rounded up to a multiple of 16; the second block may be the
  last, smaller block of the region.
\<close>

theorem blocks_overlap:
  assumes "0 < gran * nblk"
  shows "\<exists>info blocks.
           plan_blocks gran nblk pattern_len regs = Some (info, blocks) \<and>
           (\<forall>i. Suc i < length blocks \<and> info_id (blocks ! i) = info_id (blocks ! Suc i) \<longrightarrow>
                inter_len (blocks ! i) (blocks ! Suc i) = extra_chunk pattern_len)"
proof -
  let ?bs = "gran * nblk"
  let ?bl = "planned pattern_len ?bs (?bs + extra_chunk pattern_len) regs 0 0"
  have "plan_blocks gran nblk pattern_len regs =
          Some (filter (retained pattern_len) regs, ?bl)"
    using assms
    by (simp add: plan_blocks_def block_size_def bytes_to_read_ideal_def enumerate_regions_closed Let_def)
  moreover have "inter_len (?bl ! i) (?bl ! Suc i) = extra_chunk pattern_len"
    if "Suc i < length ?bl" "info_id (?bl ! i) = info_id (?bl ! Suc i)" for i
    using successively_nth[OF planned_overlap[OF assms, of "extra_chunk pattern_len" pattern_len regs 0 0] that(1)] that(2)
    by simp
  ultimately show ?thesis by blast
qed

theorem blocks_overlap_witness:
  "0 < (65536::nat) * 64 \<and>
   plan_blocks 65536 64 6
     [\<lparr>BaseAddress = 0, AllocationBase = 0, RegionSize = 4194400, State = MEM_COMMIT,
       Protect = 4, Type = MEM_PRIVATE\<rparr>] =
     Some ([\<lparr>BaseAddress = 0, AllocationBase = 0, RegionSize = 4194400, State = MEM_COMMIT,
             Protect = 4, Type = MEM_PRIVATE\<rparr>],
           [\<lparr>ptr = 0, bsize = 4194320, info_id = 0\<rparr>, \<lparr>ptr = 4194304, bsize = 96, info_id = 0\<rparr>]) \<and>
   inter_len \<lparr>ptr = 0, bsize = 4194320, info_id = 0\<rparr> \<lparr>ptr = 4194304, bsize = 96, info_id = 0\<rparr> = 16 \<and>
   extra_chunk 6 = 16"
proof -
  let ?r = "\<lparr>BaseAddress = 0, AllocationBase = 0, RegionSize = 4194400, State = MEM_COMMIT,
             Protect = 4, Type = MEM_PRIVATE\<rparr>"
  let ?bl = "[\<lparr>ptr = 0, bsize = 4194320, info_id = 0\<rparr>, \<lparr>ptr = 4194304, bsize = 96, info_id = 0\<rparr>]"
  have pos: "0 < (65536::nat) * 64" by simp
  have plan: "plan_blocks 65536 64 6 [?r] = Some ([?r], ?bl)"
    by (simp add: plan_blocks_def block_size_def bytes_to_read_ideal_def extra_chunk_def
        multiple_of_n_def split_region.simps)
  from blocks_overlap[OF pos, of 6 "[?r]"] plan
  have "\<forall>i. Suc i < length ?bl \<and> info_id (?bl ! i) = info_id (?bl ! Suc i) \<longrightarrow>
            inter_len (?bl ! i) (?bl ! Suc i) = extra_chunk 6"
    by simp
  then have "inter_len (?bl ! 0) (?bl ! Suc 0) = extra_chunk 6" by simp
  moreover have "extra_chunk 6 = 16" by (simp add: extra_chunk_def multiple_of_n_def)
  ultimately show ?thesis using pos plan by simp
qed

section \<open>Properties of the matcher\<close>

lemma occurrences_Cons:
  "occurrences pat (c # cs) =
     (if take (length pat) (c # cs) = pat then [0] else []) @ map Suc (occurrences pat cs)"
proof -
  have "[0..<Suc (length cs)] = 0 # map Suc [0..<length cs]"
    by (simp only: upt_conv_Cons[OF zero_less_Suc] map_Suc_upt)
  then have "[0..<length (c # cs)] = 0 # map Suc [0..<length cs]"
    by simp
  then show ?thesis
    by (simp add: occurrences_def filter_map comp_def)
qed

lemma occurrences_Nil: "occurrences pat [] = []"
  by (simp add: occurrences_def)

lemma strstr_u8_None:
  "pat \<noteq> [] \<Longrightarrow> strstr_u8 w pat = None \<Longrightarrow> occurrences pat w = []"
  by (induction w) (auto simp: occurrences_Cons occurrences_Nil split: if_splits)

lemma strstr_u8_Some:
  "pat \<noteq> [] \<Longrightarrow> strstr_u8 w pat = Some k \<Longrightarrow>
   k < length w \<and> occurrences pat w = k # map (\<lambda>i. Suc k + i) (occurrences pat (drop (Suc k) w))"
proof (induction w arbitrary: k)
  case Nil
  then show ?case by simp
next
  case (Cons c cs)
  show ?case
  proof (cases "take (length pat) (c # cs) = pat")
    case True
    with Cons.prems show ?thesis by (simp add: occurrences_Cons)
  next
    case False
    with Cons.prems obtain k' where k': "strstr_u8 cs pat = Some k'" "k = Suc k'"
      by auto
    from Cons.IH[OF Cons.prems(1) k'(1)] False k'(2) show ?thesis
      by (simp add: occurrences_Cons)
  qed
qed

lemma occurrences_short: "length w < length pat \<Longrightarrow> occurrences pat w = []"
proof -
  assume a: "length w < length pat"
  have "take (length pat) (drop i w) \<noteq> pat" for i
  proof
    assume "take (length pat) (drop i w) = pat"
    then have "length (take (length pat) (drop i w)) = length pat" by simp
    with a show False by simp
  qed
  then show ?thesis by (simp add: occurrences_def)
qed

lemma match_loop_occurrences:
  assumes "pat \<noteq> []"
  shows "match_loop buf pat p bp (br - bp) m =
           Some (m @ map (\<lambda>i. p + (bp + i)) (occurrences pat (drop bp (take br buf))))"
proof (induction "br - bp" arbitrary: bp m rule: less_induct)
  case less
  let ?v = "take (br - bp) (drop bp buf)"
  have v: "drop bp (take br buf) = ?v" by (simp add: drop_take)
  show ?case
  proof (cases "length pat \<le> br - bp")
    case False
    then have "length ?v < length pat" by simp
    then have "occurrences pat ?v = []" by (rule occurrences_short)
    with False show ?thesis
      by (subst match_loop.simps) (simp add: v)
  next
    case True
    show ?thesis
    proof (cases "strstr_u8 ?v pat")
      case None
      with True strstr_u8_None[OF assms None] show ?thesis
        by (subst match_loop.simps) (simp add: v)
    next
      case (Some k)
      from strstr_u8_Some[OF assms Some]
      have k: "k < length ?v"
        and occ: "occurrences pat ?v = k # map (\<lambda>i. Suc k + i) (occurrences pat (drop (Suc k) ?v))"
        by simp_all
      from k have kb: "k < br - bp" by simp
      then have lt: "br - (bp + k + 1) < br - bp" by simp
      have sz: "br - bp - (k + 1) = br - (bp + k + 1)" by simp
      have dr: "drop (Suc k) ?v = drop (bp + k + 1) (take br buf)"
        by (simp add: v[symmetric] add.commute)
      have "match_loop buf pat p bp (br - bp) m =
              match_loop buf pat p (bp + k + 1) (br - (bp + k + 1)) (m @ [p + (bp + k)])"
        using True Some by (subst match_loop.simps) (simp only: sz if_True option.case)
      also have "\<dots> = Some ((m @ [p + (bp + k)]) @
                    map (\<lambda>i. p + (bp + k + 1 + i)) (occurrences pat (drop (bp + k + 1) (take br buf))))"
        by (rule less[OF lt])
      finally show ?thesis
        by (simp add: v occ dr comp_def)
    qed
  qed
qed

section \<open>Completeness of the scan\<close>

lemma region_blocks_cover:
  assumes "0 < bs" "plen \<le> ov" "0 < plen"
  shows "off' + plen \<le> r \<Longrightarrow>
         \<exists>b \<in> set (region_blocks bs (bs + ov) p iid r off).
           ptr b \<le> p + off + off' \<and> p + off + off' + plen \<le> ptr b + bsize b"
proof (induction bs "bs + ov" p iid r off arbitrary: off' rule: region_blocks.induct)
  case (1 bs p iid r off)
  from 1(2) assms(3) have nz: "r \<noteq> 0" by simp
  show ?case
  proof (cases "bs + ov \<le> r \<and> 0 < bs")
    case False
    with nz 1(2) show ?thesis
      by (subst region_blocks.simps) auto
  next
    case True
    have eq: "region_blocks bs (bs + ov) p iid r off =
                \<lparr>ptr = p + off, bsize = bs + ov, info_id = iid\<rparr>
                # region_blocks bs (bs + ov) p iid (r - bs) (off + bs)"
      using True nz by (subst region_blocks.simps) simp
    show ?thesis
    proof (cases "off' < bs")
      case True
      with assms(2) show ?thesis unfolding eq by simp
    next
      case False
      then have "(off' - bs) + plen \<le> r - bs" using 1(2) by simp
      from 1(1)[OF nz True this] obtain b where b:
        "b \<in> set (region_blocks bs (bs + ov) p iid (r - bs) (off + bs))"
        "ptr b \<le> p + (off + bs) + (off' - bs)"
        "p + (off + bs) + (off' - bs) + plen \<le> ptr b + bsize b"
        by blast
      from False have "p + (off + bs) + (off' - bs) = p + off + off'" by simp
      with b show ?thesis unfolding eq by (intro bexI[of _ b]) simp_all
    qed
  qed
qed

lemma planned_region:
  "k < length regs \<Longrightarrow> retained pattern_len (regs ! k) \<Longrightarrow>
   \<exists>m. set (region_blocks bs ideal (p + region_cursor regs k) m (RegionSize (regs ! k)) 0)
          \<subseteq> set (planned pattern_len bs ideal regs p n)"
proof (induction regs arbitrary: k p n)
  case Nil
  then show ?case by simp
next
  case (Cons i rest)
  show ?case
  proof (cases k)
    case 0
    with Cons.prems show ?thesis
      by (auto simp: region_cursor_def)
  next
    case (Suc j)
    with Cons.prems have j: "j < length rest" "retained pattern_len (rest ! j)" by simp_all
    have c: "p + region_cursor (i # rest) (Suc j) = (p + RegionSize i) + region_cursor rest j"
      by (simp add: region_cursor_def)
    from Cons.IH[OF j] obtain m where
      "set (region_blocks bs ideal ((p + RegionSize i) + region_cursor rest j) m (RegionSize (rest ! j)) 0)
         \<subseteq> set (planned pattern_len bs ideal rest (p + RegionSize i) (if retained pattern_len i then Suc n else n))"
      by blast
    then have "set (region_blocks bs ideal ((p + RegionSize i) + region_cursor rest j) m (RegionSize (rest ! j)) 0)
         \<subseteq> set (planned pattern_len bs ideal (i # rest) p n)"
      by auto
    then show ?thesis
      unfolding Suc nth_Cons_Suc c by (rule exI)
  qed
qed

lemma search_block_full_read:
  assumes "pat \<noteq> []"
  shows "search_block pat b (full_read mem b) =
           Some (map (\<lambda>i. ptr b + i) (occurrences pat (map mem [ptr b ..< ptr b + bsize b])))"
proof (cases "length pat \<le> bsize b")
  case True
  from match_loop_occurrences[OF assms, of "map mem [ptr b ..< ptr b + bsize b]" "ptr b" 0 "bsize b" "[]"]
  show ?thesis using True by (simp add: search_block_def full_read_def)
next
  case False
  then have "occurrences pat (map mem [ptr b ..< ptr b + bsize b]) = []"
    by (intro occurrences_short) simp
  with False show ?thesis by (simp add: search_block_def full_read_def)
qed

lemma occurs_in_block:
  assumes "pat \<noteq> []" "occurs_at mem pat a" "ptr b \<le> a" "a + length pat \<le> ptr b + bsize b"
  shows "a - ptr b \<in> set (occurrences pat (map mem [ptr b ..< ptr b + bsize b]))"
proof -
  let ?i = "a - ptr b"
  from assms have lt: "?i < bsize b" by (cases pat) auto
  have "drop ?i (map mem [ptr b ..< ptr b + bsize b]) = map mem [a ..< ptr b + bsize b]"
    using assms(3) by (simp add: drop_map)
  then have "take (length pat) (drop ?i (map mem [ptr b ..< ptr b + bsize b])) = map mem [a ..< a + length pat]"
    using assms(4) by (simp add: take_map)
  with assms(2) lt show ?thesis by (simp add: occurrences_def occurs_at_def)
qed

lemma extra_chunk_ge: "pattern_len \<le> extra_chunk pattern_len"
  unfolding extra_chunk_def multiple_of_n_def by presburger

lemma worker_full_read:
  "worker sf mfn pat r_info b (full_read mem b) = search_and_release pat b (full_read mem b) []"
  by (simp add: worker_def full_read_def Let_def)

text \<open>
  Claim C3. For a positive stride and a non-empty pattern: if the pattern occurs at offset
  \<open>off\<close> of the \<open>k\<close>-th record of the walk, a committed region that holds the whole
  occurrence, then the walk returns and one of the planned blocks contains the occurrence
  entirely; the worker of that block, when its read returns in full, records the address
  of the occurrence.
\<close>

theorem match_completeness:
  assumes "0 < gran * nblk" and "pattern \<noteq> []"
    and "k < length regs" and "State (regs ! k) = MEM_COMMIT"
    and "off + length pattern \<le> RegionSize (regs ! k)"
    and "occurs_at mem pattern (region_cursor regs k + off)"
  shows "\<exists>info blocks.
           plan_blocks gran nblk (length pattern) regs = Some (info, blocks) \<and>
           (\<exists>b \<in> set blocks.
              ptr b \<le> region_cursor regs k + off \<and>
              region_cursor regs k + off + length pattern \<le> block_end b \<and>
              (\<exists>w. worker sf mfn pattern r_info b (full_read mem b) = Some w \<and>
                   region_cursor regs k + off \<in> set (matches w)))"
proof -
  let ?bs = "gran * nblk"
  let ?ov = "extra_chunk (length pattern)"
  let ?a = "region_cursor regs k + off"
  let ?bl = "planned (length pattern) ?bs (?bs + ?ov) regs 0 0"
  have plan: "plan_blocks gran nblk (length pattern) regs =
                Some (filter (retained (length pattern)) regs, ?bl)"
    using assms(1)
    by (simp add: plan_blocks_def block_size_def bytes_to_read_ideal_def
        enumerate_regions_closed Let_def)
  from assms(4,5) have ret: "retained (length pattern) (regs ! k)"
    by (simp add: retained_def)
  from planned_region[OF assms(3) ret, of ?bs "?bs + ?ov" 0 0] obtain m where
    sub: "set (region_blocks ?bs (?bs + ?ov) (region_cursor regs k) m (RegionSize (regs ! k)) 0)
            \<subseteq> set ?bl"
    by auto
  from assms(2) have pl: "0 < length pattern" by simp
  from region_blocks_cover[OF assms(1) extra_chunk_ge pl assms(5),
      of "region_cursor regs k" m 0]
  obtain b where b:
    "b \<in> set (region_blocks ?bs (?bs + ?ov) (region_cursor regs k) m (RegionSize (regs ! k)) 0)"
    "ptr b \<le> ?a" "?a + length pattern \<le> ptr b + bsize b"
    by auto
  from occurs_in_block[OF assms(2,6) b(2,3)]
  have "?a - ptr b \<in> set (occurrences pattern (map mem [ptr b ..< ptr b + bsize b]))" .
  then have "ptr b + (?a - ptr b) \<in>
      set (map (\<lambda>i. ptr b + i) (occurrences pattern (map mem [ptr b ..< ptr b + bsize b])))"
    by simp
  with b(2) have "?a \<in>
      set (map (\<lambda>i. ptr b + i) (occurrences pattern (map mem [ptr b ..< ptr b + bsize b])))"
    by simp
  then have "\<exists>w. worker sf mfn pattern r_info b (full_read mem b) = Some w \<and> ?a \<in> set (matches w)"
    by (simp add: worker_full_read search_and_release_def search_block_full_read[OF assms(2)])
  with b sub plan show ?thesis
    by (auto simp: block_end_def)
qed

theorem match_completeness_witness:
  "0 < (65536::nat) * 64 \<and> ''NEEDLE'' \<noteq> [] \<and>
   (\<exists>info blocks.
      plan_blocks 65536 64 (length ''NEEDLE'')
        [\<lparr>BaseAddress = 0, AllocationBase = 0, RegionSize = 4194400, State = MEM_COMMIT,
          Protect = 4, Type = MEM_PRIVATE\<rparr>] = Some (info, blocks) \<and>
      (\<exists>b \<in> set blocks.
         ptr b \<le> 4194310 \<and> 4194316 \<le> block_end b \<and>
         (\<exists>w. worker False (\<lambda>_. None) ''NEEDLE''
                \<lparr>BaseAddress = 0, AllocationBase = 0, RegionSize = 4194400, State = MEM_COMMIT,
                  Protect = 4, Type = MEM_PRIVATE\<rparr> b
                (full_read (\<lambda>a. if 4194310 \<le> a \<and> a < 4194316 then ''NEEDLE'' ! (a - 4194310)
                                else CHR 0x00) b) = Some w \<and>
              4194310 \<in> set (matches w))))"
proof -
  let ?r = "\<lparr>BaseAddress = 0, AllocationBase = 0, RegionSize = 4194400, State = MEM_COMMIT,
             Protect = 4, Type = MEM_PRIVATE\<rparr>"
  let ?mem = "\<lambda>a::nat. if 4194310 \<le> a \<and> a < 4194316 then ''NEEDLE'' ! (a - 4194310) else CHR 0x00"
  have h1: "0 < (65536::nat) * 64" by simp
  have h2: "''NEEDLE'' \<noteq> []" by simp
  have h3: "0 < length [?r]" by simp
  have h4: "State ([?r] ! 0) = MEM_COMMIT" by simp
  have h5: "4194310 + length ''NEEDLE'' \<le> RegionSize ([?r] ! 0)" by simp
  have h6: "occurs_at ?mem ''NEEDLE'' (region_cursor [?r] 0 + 4194310)"
    by (simp add: occurs_at_def region_cursor_def)
  from match_completeness[OF h1 h2 h3 h4 h5 h6, of False "\<lambda>_. None" ?r] h1 h2
  show ?thesis by (simp add: region_cursor_def)
qed

text \<open>
  Claim C8. The matching loop over the four bytes \<open>AAAA\<close> with the pattern \<open>AA\<close> records
  the offsets 0, 1 and 2, and the worker of a block at address \<open>p\<close> whose read returned
  these four bytes records \<open>p\<close>, \<open>p + 1\<close> and \<open>p + 2\<close>. In general, for a non-empty
  pattern, the loop over the first \<open>br\<close> bytes of the buffer returns and records every
  offset at which the pattern occurs there, overlapping occurrences included, in ascending
  order.
\<close>

theorem self_overlapping_matches:
  "match_loop ''AAAA'' ''AA'' 0 0 4 [] = Some [0, 1, 2] \<and>
   search_block ''AA'' \<lparr>ptr = p, bsize = 4, info_id = i\<rparr>
     \<lparr>res = True, bytes_read = 4, buffer = ''AAAA''\<rparr> = Some [p, p + 1, p + 2] \<and>
   (\<forall>pat buf p br. pat \<noteq> [] \<longrightarrow>
      match_loop buf pat p 0 br [] = Some (map (\<lambda>i. p + i) (occurrences pat (take br buf))))"
proof -
  have occ: "occurrences ''AA'' ''AAAA'' = [0, 1, 2]" by code_simp
  have gen: "match_loop buf pat p 0 br [] = Some (map (\<lambda>i. p + i) (occurrences pat (take br buf)))"
    if "pat \<noteq> []" for pat buf p br
    using match_loop_occurrences[OF that, of buf p 0 br "[]"] by simp
  have "match_loop ''AAAA'' ''AA'' q 0 4 [] = Some [q, q + 1, q + 2]" for q
    using gen[of "''AA''" "''AAAA''" q 4] occ by simp
  from this[of 0] this[of p] gen show ?thesis
    by (simp add: search_block_def)
qed

theorem self_overlapping_matches_witness:
  "''AAAA'' \<noteq> [] \<and> match_loop ''AAAAA'' ''AAAA'' 0 0 5 [] = Some [0, 1] \<and>
   occurrences ''AAAA'' (take 5 ''AAAAA'') = [0, 1]"
proof -
  have ne: "''AAAA'' \<noteq> []" by simp
  have occ: "occurrences ''AAAA'' (take 5 ''AAAAA'') = [0, 1]" by code_simp
  from self_overlapping_matches ne
  have "match_loop ''AAAAA'' ''AAAA'' 0 0 5 [] =
          Some (map (\<lambda>i. 0 + i) (occurrences ''AAAA'' (take 5 ''AAAAA'')))"
    by blast
  with occ ne show ?thesis by simp
qed

section \<open>The budget gate\<close>

lemma sum_list_remove1_nat:
  "n \<in> set xs \<Longrightarrow> int (sum_list (remove1 n xs)) = int (sum_list xs) - int n"
  by (induction xs) auto

lemma gate_step_inv:
  assumes "gate_inv lim B g" "gate_step lim a g = Some g'" "\<forall>n \<in> set (acquired [a]). n \<le> B"
  shows "gate_inv lim B g'"
proof (cases a)
  case (Acquire n)
  with assms show ?thesis
    by (auto simp: gate_inv_def split: if_splits)
next
  case (Subtract n)
  with assms have n: "n \<in> set (checked_out g)" by (auto split: if_splits)
  then have ne: "checked_out g \<noteq> []" by auto
  from assms Subtract n ne show ?thesis
    by (auto simp: gate_inv_def sum_list_remove1_nat split: if_splits)
next
  case Notify_all
  with assms show ?thesis by simp
qed

lemma acquired_Cons: "set (acquired (a # as)) = set (acquired [a]) \<union> set (acquired as)"
  by (cases a) auto

lemma gate_run_inv:
  "gate_inv lim B g \<Longrightarrow> gate_run lim as g = Some g' \<Longrightarrow> \<forall>n \<in> set (acquired as). n \<le> B \<Longrightarrow>
   gate_inv lim B g'"
proof (induction as arbitrary: g)
  case Nil
  then show ?case by simp
next
  case (Cons a as)
  from Cons.prems(2) obtain g1 where g1: "gate_step lim a g = Some g1" "gate_run lim as g1 = Some g'"
    by (auto split: option.splits)
  from Cons.prems(3) have b: "\<forall>n \<in> set (acquired [a]). n \<le> B" "\<forall>n \<in> set (acquired as). n \<le> B"
    by (simp_all add: acquired_Cons[of a as])
  from gate_step_inv[OF Cons.prems(1) g1(1) b(1)] have "gate_inv lim B g1" .
  from Cons.IH[OF this g1(2) b(2)] show ?case .
qed

text \<open>
  Claim C1, as the code has it. Take a positive stride, the blocks planned by the walk and
  any schedule of gate steps from the initial state in which workers check out planned
  blocks. Then the counter is the sum of the block sizes checked out. A worker is admitted
  exactly when the counter is below the limit, whatever the size of its block, and the
  size is then added to the counter. So the counter may pass the limit, by less than one
  block: while a block is checked out, the counter is below the limit plus \<open>S + overlap\<close>.
\<close>

theorem budget_gate_bound:
  assumes "0 < gran * nblk"
    and "plan_blocks gran nblk pattern_len regs = Some (info, blocks)"
    and "set (acquired as) \<subseteq> bsize ` set blocks"
    and "gate_run lim as gate_init = Some g"
  shows "g_memory_usage_bytes g = int (sum_list (checked_out g)) \<and>
         (checked_out g \<noteq> [] \<longrightarrow>
            g_memory_usage_bytes g
              < lim + int (bytes_to_read_ideal (block_size gran nblk) pattern_len)) \<and>
         (\<forall>n. gate_step lim (Acquire n) g =
               (if g_memory_usage_bytes g < lim
                then Some \<lparr>g_memory_usage_bytes = g_memory_usage_bytes g + int n,
                           checked_out = n # checked_out g\<rparr>
                else None))"
proof -
  let ?B = "bytes_to_read_ideal (block_size gran nblk) pattern_len"
  from assms(2) plan_blocks_closed[OF assms(1), of pattern_len regs]
  have "blocks = planned pattern_len (gran * nblk) (gran * nblk + extra_chunk pattern_len) regs 0 0"
    by simp
  with planned_bsize[OF assms(1)] have "\<forall>b \<in> set blocks. bsize b \<le> ?B"
    by (auto simp: bytes_to_read_ideal_def block_size_def)
  with assms(3) have bound: "\<forall>n \<in> set (acquired as). n \<le> ?B" by auto
  have "gate_inv lim ?B gate_init" by (simp add: gate_inv_def gate_init_def)
  from gate_run_inv[OF this assms(4) bound] show ?thesis by (auto simp: gate_inv_def)
qed

theorem budget_gate_bound_witness:
  "0 < (65536::nat) * 64 \<and>
   plan_blocks 65536 64 1
     [\<lparr>BaseAddress = 0, AllocationBase = 0, RegionSize = 8388624, State = MEM_COMMIT,
       Protect = 4, Type = MEM_PRIVATE\<rparr>] =
     Some ([\<lparr>BaseAddress = 0, AllocationBase = 0, RegionSize = 8388624, State = MEM_COMMIT,
             Protect = 4, Type = MEM_PRIVATE\<rparr>],
           [\<lparr>ptr = 0, bsize = 4194320, info_id = 0\<rparr>, \<lparr>ptr = 4194304, bsize = 4194320, info_id = 0\<rparr>,
            \<lparr>ptr = 8388608, bsize = 16, info_id = 0\<rparr>]) \<and>
   gate_run 8388608 [Acquire 4194320, Acquire 4194320, Subtract 4194320] gate_init =
     Some \<lparr>g_memory_usage_bytes = 4194320, checked_out = [4194320]\<rparr> \<and>
   (4194320::int) = int (sum_list [4194320]) \<and>
   (4194320::int) < 8388608 + int (bytes_to_read_ideal (block_size 65536 64) 1)"
proof -
  let ?r = "\<lparr>BaseAddress = 0, AllocationBase = 0, RegionSize = 8388624, State = MEM_COMMIT,
       Protect = 4, Type = MEM_PRIVATE\<rparr>"
  let ?bl = "[\<lparr>ptr = 0, bsize = 4194320, info_id = 0\<rparr>, \<lparr>ptr = 4194304, bsize = 4194320, info_id = 0\<rparr>,
            \<lparr>ptr = 8388608, bsize = 16, info_id = 0\<rparr>]"
  let ?as = "[Acquire 4194320, Acquire 4194320, Subtract 4194320]"
  let ?g = "\<lparr>g_memory_usage_bytes = 4194320, checked_out = [4194320]\<rparr>"
  have h1: "0 < (65536::nat) * 64" by simp
  have h2: "plan_blocks 65536 64 1 [?r] = Some ([?r], ?bl)"
    by (simp add: plan_blocks_def block_size_def bytes_to_read_ideal_def extra_chunk_def
        multiple_of_n_def split_region.simps)
  have h3: "set (acquired ?as) \<subseteq> bsize ` set ?bl" by simp
  have h4: "gate_run 8388608 ?as gate_init = Some ?g" by (simp add: gate_init_def)
  from budget_gate_bound[OF h1 h2 h3 h4] h1 h2 h4 show ?thesis by simp
qed

text \<open>
  Claim C1 as stated fails: with a limit of 8 MiB and two full blocks of
  \<open>4194304 + 16\<close> bytes, the second worker is admitted while the first block is checked
  out, although counter plus block size exceeds the limit, and the counter then exceeds
  the limit.
\<close>

theorem budget_gate_counterexample:
  "gate_run 8388608 [Acquire 4194320, Acquire 4194320] gate_init =
     Some \<lparr>g_memory_usage_bytes = 8388640, checked_out = [4194320, 4194320]\<rparr> \<and>
   \<not> (8388640 \<le> (8388608::int)) \<and> \<not> ((4194320::int) + 4194320 \<le> 8388608)"
  by (simp add: gate_init_def)

text \<open>
  Claim C5 fails on the code: when \<open>ReadProcessMemory\<close> returns \<open>FALSE\<close> the worker
  subtracts the block size and leaves the iteration by \<open>continue\<close>; it never reaches
  \<open>notify_all\<close>, with and without verbose diagnostics.
\<close>

theorem hard_failure_skips_notify:
  "map_option actions (worker sf mfn pat r_info b \<lparr>res = False, bytes_read = n, buffer = buf\<rparr>) =
     Some [Acquire (bsize b), Subtract (bsize b)]"
  by (simp add: worker_def Let_def)

theorem hard_failure_skips_notify_witness:
  "map_option actions
     (worker True (\<lambda>_. None) ''AB''
        \<lparr>BaseAddress = 4096, AllocationBase = 4096, RegionSize = 32, State = MEM_COMMIT,
          Protect = 1, Type = MEM_PRIVATE\<rparr>
        \<lparr>ptr = 4096, bsize = 32, info_id = 0\<rparr>
        \<lparr>res = False, bytes_read = 0, buffer = []\<rparr>) =
   Some [Acquire (bsize \<lparr>ptr = 4096, bsize = 32, info_id = 0\<rparr>),
         Subtract (bsize \<lparr>ptr = 4096, bsize = 32, info_id = 0\<rparr>)]"
  by (rule hard_failure_skips_notify)

section \<open>Read errors and the budget at scan entry\<close>

lemma search_block_occurrences:
  assumes "pat \<noteq> []"
  shows "search_block pat b r =
           Some (map (\<lambda>i. ptr b + i) (occurrences pat (take (bytes_read r) (buffer r))))"
proof (cases "length pat \<le> bytes_read r")
  case True
  from match_loop_occurrences[OF assms, of "buffer r" "ptr b" 0 "bytes_read r" "[]"] True
  show ?thesis by (simp add: search_block_def)
next
  case False
  then have "occurrences pat (take (bytes_read r) (buffer r)) = []"
    by (intro occurrences_short) simp
  with False show ?thesis by (simp add: search_block_def)
qed

lemma gate_run_block:
  "g_memory_usage_bytes g < lim \<Longrightarrow>
   gate_run lim [Acquire n, Subtract n, Notify_all] g = Some g \<and>
   gate_run lim [Acquire n, Subtract n] g = Some g"
  by simp

lemma worker_returns:
  assumes "pat \<noteq> []"
  shows "\<exists>w. worker sf mfn pat r_info b r = Some w \<and>
             matches w = (if res r then map (\<lambda>i. ptr b + i)
                                          (occurrences pat (take (bytes_read r) (buffer r)))
                          else []) \<and>
             (actions w = [Acquire (bsize b), Subtract (bsize b), Notify_all] \<or>
              actions w = [Acquire (bsize b), Subtract (bsize b)])"
  by (simp add: worker_def Let_def search_and_release_def search_block_occurrences[OF assms])

lemma run_blocks_step:
  assumes "pat \<noteq> []" "g_memory_usage_bytes g < g_memory_limit cfg"
  shows "\<exists>w. worker (g_show_failed_readings cfg) (module_file_name tgt) pat (info ! info_id b) b
                (ReadProcessMemory tgt b) = Some w \<and>
             matches w = (if res (ReadProcessMemory tgt b)
                          then map (\<lambda>i. ptr b + i)
                                 (occurrences pat (take (bytes_read (ReadProcessMemory tgt b))
                                                         (buffer (ReadProcessMemory tgt b))))
                          else []) \<and>
             gate_run (g_memory_limit cfg) (actions w) g = Some g \<and>
             run_blocks cfg tgt pat info (b # bs) g =
               (case run_blocks cfg tgt pat info bs g of
                  None \<Rightarrow> None
                | Some (ws, g') \<Rightarrow> Some ((b, w) # ws, g'))"
proof -
  from worker_returns[OF assms(1)] obtain w where w:
    "worker (g_show_failed_readings cfg) (module_file_name tgt) pat (info ! info_id b) b
       (ReadProcessMemory tgt b) = Some w"
    "matches w = (if res (ReadProcessMemory tgt b)
                  then map (\<lambda>i. ptr b + i)
                         (occurrences pat (take (bytes_read (ReadProcessMemory tgt b))
                                                 (buffer (ReadProcessMemory tgt b))))
                  else [])"
    "actions w = [Acquire (bsize b), Subtract (bsize b), Notify_all] \<or>
     actions w = [Acquire (bsize b), Subtract (bsize b)]"
    by blast
  from w(3) gate_run_block[OF assms(2), of "bsize b"]
  have g: "gate_run (g_memory_limit cfg) (actions w) g = Some g" by auto
  have "run_blocks cfg tgt pat info (b # bs) g =
          (case run_blocks cfg tgt pat info bs g of
             None \<Rightarrow> None
           | Some (ws, g') \<Rightarrow> Some ((b, w) # ws, g'))"
    by (simp add: w(1) g)
  with w(1,2) g show ?thesis by blast
qed

lemma run_blocks_returns:
  assumes "pat \<noteq> []" "g_memory_usage_bytes g < g_memory_limit cfg"
  shows "\<exists>ws. run_blocks cfg tgt pat info blocks g = Some (ws, g) \<and> map fst ws = blocks"
proof (induction blocks)
  case Nil
  show ?case by simp
next
  case (Cons b bs)
  then obtain ws where ws: "run_blocks cfg tgt pat info bs g = Some (ws, g)" "map fst ws = bs"
    by blast
  from run_blocks_step[OF assms, of tgt info b bs] obtain w where
    "run_blocks cfg tgt pat info (b # bs) g =
       (case run_blocks cfg tgt pat info bs g of
          None \<Rightarrow> None
        | Some (ws, g') \<Rightarrow> Some ((b, w) # ws, g'))"
    by blast
  with ws show ?case by simp
qed

text \<open>
  Claim C7, as the code has it. For a non-empty pattern and a block whose read ends in an
  error, met while the counter is below the limit: the worker returns; after a hard
  failure (\<open>ReadProcessMemory\<close> returns \<open>FALSE\<close>) the block has no matches, after a short
  read it has the matches found in the bytes that were read; in both cases the block size
  is subtracted again, so the gate is as before, and the loop goes on with the next block
  without a second read of this one.
\<close>

theorem read_error_block:
  assumes "pattern \<noteq> []"
    and "\<not> res (ReadProcessMemory tgt b) \<or> bytes_read (ReadProcessMemory tgt b) \<noteq> bsize b"
    and "g_memory_usage_bytes g < g_memory_limit cfg"
  shows "\<exists>w. worker (g_show_failed_readings cfg) (module_file_name tgt) pattern (info ! info_id b) b
                (ReadProcessMemory tgt b) = Some w \<and>
             matches w = (if res (ReadProcessMemory tgt b)
                          then map (\<lambda>i. ptr b + i)
                                 (occurrences pattern (take (bytes_read (ReadProcessMemory tgt b))
                                                             (buffer (ReadProcessMemory tgt b))))
                          else []) \<and>
             gate_run (g_memory_limit cfg) (actions w) g = Some g \<and>
             run_blocks cfg tgt pattern info (b # bs) g =
               (case run_blocks cfg tgt pattern info bs g of
                  None \<Rightarrow> None
                | Some (ws, g') \<Rightarrow> Some ((b, w) # ws, g'))"
  using run_blocks_step[OF assms(1,3)] .

theorem read_error_block_witness:
  "''AB'' \<noteq> [] \<and>
   bytes_read \<lparr>res = True, bytes_read = 8, buffer = ''xxABxxxx''\<rparr>
     \<noteq> bsize \<lparr>ptr = 4096, bsize = 32, info_id = 0\<rparr> \<and>
   g_memory_usage_bytes gate_init < 1048576 \<and>
   (\<exists>w. worker False (\<lambda>_. None) ''AB''
          \<lparr>BaseAddress = 4096, AllocationBase = 4096, RegionSize = 32, State = MEM_COMMIT,
            Protect = 4, Type = MEM_PRIVATE\<rparr>
          \<lparr>ptr = 4096, bsize = 32, info_id = 0\<rparr>
          \<lparr>res = True, bytes_read = 8, buffer = ''xxABxxxx''\<rparr> = Some w \<and>
        matches w = [4098] \<and>
        gate_run 1048576 (actions w) gate_init = Some gate_init)"
proof -
  let ?cfg = "\<lparr>alloc_granularity = 65536, g_num_alloc_blocks = 64, g_memory_limit = 1048576,
       g_show_failed_readings = False, too_many_results = (\<lambda>n. 10000 < n)\<rparr>"
  let ?r = "\<lparr>BaseAddress = 4096, AllocationBase = 4096, RegionSize = 32, State = MEM_COMMIT,
            Protect = 4, Type = MEM_PRIVATE\<rparr>"
  let ?b = "\<lparr>ptr = 4096, bsize = 32, info_id = 0\<rparr>"
  let ?rd = "\<lparr>res = True, bytes_read = 8, buffer = ''xxABxxxx''\<rparr>"
  let ?tgt = "\<lparr>regions = [?r], ReadProcessMemory = (\<lambda>_. ?rd), module_file_name = (\<lambda>_. None)\<rparr>"
  have h1: "''AB'' \<noteq> []" by simp
  have h2: "\<not> res (ReadProcessMemory ?tgt ?b) \<or> bytes_read (ReadProcessMemory ?tgt ?b) \<noteq> bsize ?b"
    by simp
  have h3: "g_memory_usage_bytes gate_init < g_memory_limit ?cfg"
    by (simp add: gate_init_def)
  have occ: "occurrences ''AB'' (take 8 ''xxABxxxx'') = [2]" by code_simp
  from read_error_block[OF h1 h2 h3, of "[?r]" "[]"] obtain w where
    "worker False (\<lambda>_. None) ''AB'' ?r ?b ?rd = Some w"
    "matches w = map (\<lambda>i. 4096 + i) (occurrences ''AB'' (take 8 ''xxABxxxx''))"
    "gate_run 1048576 (actions w) gate_init = Some gate_init"
    by auto
  with occ h1 h3 show ?thesis by simp
qed

text \<open>
  Claim C7 as stated fails for short reads: a block of 32 bytes of which 8 were read, with
  the pattern inside these 8 bytes, contributes that match, with and without verbose
  diagnostics.
\<close>

theorem short_read_counterexample:
  "bytes_read \<lparr>res = True, bytes_read = 8, buffer = ''xxABxxxx''\<rparr> \<noteq> bsize \<lparr>ptr = 4096, bsize = 32, info_id = 0\<rparr> \<and>
   worker False (\<lambda>_. None) ''AB''
     \<lparr>BaseAddress = 4096, AllocationBase = 4096, RegionSize = 32, State = MEM_COMMIT,
       Protect = 4, Type = MEM_PRIVATE\<rparr>
     \<lparr>ptr = 4096, bsize = 32, info_id = 0\<rparr>
     \<lparr>res = True, bytes_read = 8, buffer = ''xxABxxxx''\<rparr> =
   Some \<lparr>matches = [4098], actions = [Acquire 32, Subtract 32, Notify_all], diags = []\<rparr> \<and>
   worker True (\<lambda>_. None) ''AB''
     \<lparr>BaseAddress = 4096, AllocationBase = 4096, RegionSize = 32, State = MEM_COMMIT,
       Protect = 4, Type = MEM_PRIVATE\<rparr>
     \<lparr>ptr = 4096, bsize = 32, info_id = 0\<rparr>
     \<lparr>res = True, bytes_read = 8, buffer = ''xxABxxxx''\<rparr> =
   Some \<lparr>matches = [4098], actions = [Acquire 32, Subtract 32, Notify_all],
         diags = [Region_info \<lparr>BaseAddress = 4096, AllocationBase = 4096, RegionSize = 32,
                    State = MEM_COMMIT, Protect = 4, Type = MEM_PRIVATE\<rparr>,
                  Not_read_entirely 24 32]\<rparr>"
  by (simp add: worker_def search_and_release_def search_block_def region_lines_def
      match_loop.simps)

text \<open>
  Claim C6, as the code has it. \<open>find_pattern\<close> does not compare the block size with the
  budget. With a positive stride, a non-empty pattern and a positive budget the scan
  (with one worker thread) returns and has read every planned block, whether or not the
  block size \<open>S + overlap\<close> exceeds the budget.
\<close>

theorem scan_runs_over_budget:
  assumes "0 < alloc_granularity cfg * g_num_alloc_blocks cfg" and "pattern \<noteq> []"
    and "0 < g_memory_limit cfg"
  shows "\<exists>info blocks r.
           plan_blocks (alloc_granularity cfg) (g_num_alloc_blocks cfg) (length pattern)
             (regions tgt) = Some (info, blocks) \<and>
           find_pattern cfg tgt pattern = Some r \<and> reads r = blocks"
proof -
  from plan_blocks_closed[OF assms(1)] obtain info blocks where
    plan: "plan_blocks (alloc_granularity cfg) (g_num_alloc_blocks cfg) (length pattern)
             (regions tgt) = Some (info, blocks)"
    by blast
  from assms(3) have "g_memory_usage_bytes gate_init < g_memory_limit cfg"
    by (simp add: gate_init_def)
  from run_blocks_returns[OF assms(2) this] obtain ws where
    "run_blocks cfg tgt pattern info blocks gate_init = Some (ws, gate_init)" "map fst ws = blocks"
    by blast
  with plan show ?thesis by (simp add: find_pattern_def)
qed

theorem scan_runs_over_budget_witness:
  "0 < (65536::nat) * 64 \<and> ''NEEDLE'' \<noteq> [] \<and> 0 < (1048576::int) \<and>
   1048576 < int (bytes_to_read_ideal (block_size 65536 64) (length ''NEEDLE'')) \<and>
   (\<exists>r. find_pattern
          \<lparr>alloc_granularity = 65536, g_num_alloc_blocks = 64, g_memory_limit = 1048576,
            g_show_failed_readings = False, too_many_results = (\<lambda>n. 10000 < n)\<rparr>
          \<lparr>regions = [\<lparr>BaseAddress = 0, AllocationBase = 0, RegionSize = 4194400,
                        State = MEM_COMMIT, Protect = 4, Type = MEM_PRIVATE\<rparr>],
            ReadProcessMemory = full_read (\<lambda>a. CHR 0x00),
            module_file_name = (\<lambda>_. None)\<rparr>
          ''NEEDLE'' = Some r \<and>
        reads r = [\<lparr>ptr = 0, bsize = 4194320, info_id = 0\<rparr>, \<lparr>ptr = 4194304, bsize = 96, info_id = 0\<rparr>])"
proof -
  let ?cfg = "\<lparr>alloc_granularity = 65536, g_num_alloc_blocks = 64, g_memory_limit = 1048576,
            g_show_failed_readings = False, too_many_results = (\<lambda>n. 10000 < n)\<rparr>"
  let ?r = "\<lparr>BaseAddress = 0, AllocationBase = 0, RegionSize = 4194400,
                        State = MEM_COMMIT, Protect = 4, Type = MEM_PRIVATE\<rparr>"
  let ?tgt = "\<lparr>regions = [?r], ReadProcessMemory = full_read (\<lambda>a. CHR 0x00),
            module_file_name = (\<lambda>_. None)\<rparr>"
  have h1: "0 < alloc_granularity ?cfg * g_num_alloc_blocks ?cfg" by simp
  have h2: "''NEEDLE'' \<noteq> []" by simp
  have h3: "0 < g_memory_limit ?cfg" by simp
  have over: "1048576 < int (bytes_to_read_ideal (block_size 65536 64) (length ''NEEDLE''))"
    by (simp add: bytes_to_read_ideal_def block_size_def extra_chunk_def multiple_of_n_def)
  have plan: "plan_blocks 65536 64 (length ''NEEDLE'') [?r] =
      Some ([?r], [\<lparr>ptr = 0, bsize = 4194320, info_id = 0\<rparr>, \<lparr>ptr = 4194304, bsize = 96, info_id = 0\<rparr>])"
    by (simp add: plan_blocks_def block_size_def bytes_to_read_ideal_def extra_chunk_def
        multiple_of_n_def split_region.simps)
  from scan_runs_over_budget[OF h1 h2 h3, of ?tgt] plan over show ?thesis
    by simp
qed

text \<open>
  Claim C6 as stated fails: with a budget of 1 MiB, below the block size of
  \<open>4194304 + 16\<close> bytes, the scan is not rejected; it reads the block and prints the match.
\<close>

theorem over_budget_counterexample:
  "g_memory_limit \<lparr>alloc_granularity = 65536, g_num_alloc_blocks = 64, g_memory_limit = 1048576,
       g_show_failed_readings = False, too_many_results = (\<lambda>n. 10000 < n)\<rparr>
     < int (bytes_to_read_ideal (block_size 65536 64) (length ''NEEDLE'')) \<and>
   find_pattern
     \<lparr>alloc_granularity = 65536, g_num_alloc_blocks = 64, g_memory_limit = 1048576,
       g_show_failed_readings = False, too_many_results = (\<lambda>n. 10000 < n)\<rparr>
     \<lparr>regions = [\<lparr>BaseAddress = 0, AllocationBase = 0, RegionSize = 65536, State = MEM_FREE,
                   Protect = 1, Type = MEM_PRIVATE\<rparr>,
                 \<lparr>BaseAddress = 65536, AllocationBase = 65536, RegionSize = 32, State = MEM_COMMIT,
                   Protect = 4, Type = MEM_PRIVATE\<rparr>],
       ReadProcessMemory =
         full_read (\<lambda>a. if 65552 \<le> a \<and> a < 65558 then ''NEEDLE'' ! (a - 65552) else CHR 0x00),
       module_file_name = (\<lambda>_. None)\<rparr>
     ''NEEDLE'' =
   Some \<lparr>reads = [\<lparr>ptr = 65536, bsize = 32, info_id = 0\<rparr>],
         console = [Searching_committed_memory, Approximate_number 1,
                    Region_info \<lparr>BaseAddress = 65536, AllocationBase = 65536, RegionSize = 32,
                      State = MEM_COMMIT, Protect = 4, Type = MEM_PRIVATE\<rparr>,
                    Blank, Match_at 65552, Blank]\<rparr>"
  by (simp add: find_pattern_def plan_blocks_def block_size_def bytes_to_read_ideal_def
      extra_chunk_def multiple_of_n_def split_region.simps gate_init_def
      worker_def search_and_release_def search_block_def full_read_def match_loop.simps
      aggregate_def region_lines_def)

section \<open>Duplicates in the printed result\<close>

lemma occurrences_single_byte:
  "occurrences [c] (map mem [p..<p + n]) = filter (\<lambda>i. mem (p + i) = c) [0..<n]"
proof -
  have "take (Suc 0) (drop i (map mem [p..<p + n])) = [mem (p + i)]" if "i < n" for i
  proof -
    from that have "[p + i..<p + n] = (p + i) # [Suc (p + i)..<p + n]"
      by (intro upt_conv_Cons) simp
    then have "drop i (map mem [p..<p + n]) = mem (p + i) # map mem [Suc (p + i)..<p + n]"
      by (simp only: drop_map drop_upt list.map)
    then show ?thesis by simp
  qed
  then show ?thesis
    by (auto simp: occurrences_def intro!: filter_cong)
qed

lemma filter_upt_pair:
  assumes "Suc a < n"
  shows "filter (\<lambda>i. i = a \<or> i = Suc a) [0..<n] = [a, Suc a]"
proof -
  from assms have 1: "[0..<n] = [0..<a] @ [a..<n]"
    using upt_add_eq_append[of 0 a "n - a"] by simp
  from assms have 2: "[a..<n] = a # [Suc a..<n]" by (intro upt_conv_Cons) simp
  from assms have 3: "[Suc a..<n] = Suc a # [Suc (Suc a)..<n]" by (intro upt_conv_Cons) simp
  have "[0..<n] = [0..<a] @ [a, Suc a] @ [Suc (Suc a)..<n]"
    by (simp only: 1 2 3 append_Cons append_Nil)
  then show ?thesis by simp
qed

text \<open>
  Claim C2 fails on the code. With the stride \<open>65536 * 64\<close> and the one-byte pattern \<open>A\<close>,
  a committed region of two strides at address 65536 has two blocks that share the bytes at
  4259840 to 4259855. When the byte \<open>A\<close> stands at 4259840 and at 4259841, both blocks
  record both addresses; the comparison with \<open>prev_match\<close> removes neither, and each
  address is printed twice.
\<close>

theorem overlap_duplicates_printed:
  "map_option (printed_addresses \<circ> console)
     (find_pattern
        \<lparr>alloc_granularity = 65536, g_num_alloc_blocks = 64, g_memory_limit = 67108864,
          g_show_failed_readings = False, too_many_results = (\<lambda>n. 10000 < n)\<rparr>
        \<lparr>regions = [\<lparr>BaseAddress = 0, AllocationBase = 0, RegionSize = 65536, State = MEM_FREE,
                      Protect = 1, Type = MEM_PRIVATE\<rparr>,
                    \<lparr>BaseAddress = 65536, AllocationBase = 65536, RegionSize = 8388608,
                      State = MEM_COMMIT, Protect = 4, Type = MEM_PRIVATE\<rparr>],
          ReadProcessMemory =
            full_read (\<lambda>a. if a = 4259840 \<or> a = 4259841 then CHR ''A'' else CHR 0x00),
          module_file_name = (\<lambda>_. None)\<rparr>
        ''A'') =
   Some [4259840, 4259841, 4259840, 4259841]"
proof -
  let ?mem = "\<lambda>a::nat. if a = 4259840 \<or> a = 4259841 then CHR ''A'' else CHR 0x00"
  let ?f = "\<lparr>BaseAddress = 0, AllocationBase = 0, RegionSize = 65536, State = MEM_FREE,
             Protect = 1, Type = MEM_PRIVATE\<rparr>"
  let ?r = "\<lparr>BaseAddress = 65536, AllocationBase = 65536, RegionSize = 8388608,
             State = MEM_COMMIT, Protect = 4, Type = MEM_PRIVATE\<rparr>"
  let ?b0 = "\<lparr>ptr = 65536, bsize = 4194320, info_id = 0\<rparr>"
  let ?b1 = "\<lparr>ptr = 4259840, bsize = 4194304, info_id = 0\<rparr>"
  have plan: "plan_blocks 65536 64 (length ''A'') [?f, ?r] = Some ([?r], [?b0, ?b1])"
    by (simp add: plan_blocks_def block_size_def bytes_to_read_ideal_def extra_chunk_def
        multiple_of_n_def split_region.simps)
  have p0: "(?mem (65536 + i) = CHR ''A'') = (i = 4194304 \<or> i = Suc 4194304)" for i
    by auto
  have p1: "(?mem (4259840 + i) = CHR ''A'') = (i = 0 \<or> i = Suc 0)" for i
    by auto
  have o0: "occurrences ''A'' (map ?mem [65536..<65536 + 4194320]) = [4194304, Suc 4194304]"
    unfolding occurrences_single_byte p0 by (rule filter_upt_pair) simp
  have o1: "occurrences ''A'' (map ?mem [4259840..<4259840 + 4194304]) = [0, Suc 0]"
    unfolding occurrences_single_byte p1 by (rule filter_upt_pair) simp
  have "search_block ''A'' ?b0 (full_read ?mem ?b0) =
          Some (map (\<lambda>i. ptr ?b0 + i) (occurrences ''A'' (map ?mem [ptr ?b0..<ptr ?b0 + bsize ?b0])))"
    by (rule search_block_full_read) simp
  then have "search_block ''A'' ?b0 (full_read ?mem ?b0) =
          Some (map (\<lambda>i. 65536 + i) [4194304, Suc 4194304])"
    unfolding block.select_convs o0 .
  then have m0: "search_block ''A'' ?b0 (full_read ?mem ?b0) = Some [4259840, 4259841]"
    by simp
  have "search_block ''A'' ?b1 (full_read ?mem ?b1) =
          Some (map (\<lambda>i. ptr ?b1 + i) (occurrences ''A'' (map ?mem [ptr ?b1..<ptr ?b1 + bsize ?b1])))"
    by (rule search_block_full_read) simp
  then have "search_block ''A'' ?b1 (full_read ?mem ?b1) =
          Some (map (\<lambda>i. 4259840 + i) [0, Suc 0])"
    unfolding block.select_convs o1 .
  then have m1: "search_block ''A'' ?b1 (full_read ?mem ?b1) = Some [4259840, 4259841]"
    by simp
  show ?thesis
    using plan
    by (simp add: find_pattern_def worker_full_read search_and_release_def m0 m1 gate_init_def
        aggregate_def region_lines_def printed_addresses_def)
qed

section \<open>The command loop\<close>

lemma strtoul_zzz: "strtoul ''zzz'' 10 = (0, 0)" "strtoul ''zzz'' 16 = (0, 0)"
  by (simp_all add: strtoul_def isspace_def hex_prefix_def digit_of_def Let_def)

text \<open>
  Claim C9. When the common parser leaves a line to \<open>parse_command\<close>, the line is a \<open>p\<close>
  command with an argument, and \<open>strtoul\<close> consumes no character of the argument, then
  \<open>parse_command\<close> prints \<open>Invalid PID! Exiting...\<close> and returns \<open>c_quit_program\<close> with the
  selected \<open>pid\<close> unchanged; the loop does not read another line and the program returns
  0, the value it also returns when the common parser reports a quit.
\<close>

theorem invalid_pid_quits:
  assumes "parse_command_common l = c_not_set"
    and "char_at l 0 = CHR ''p''"
    and "skip_to_args l (length l) = Some a"
    and "snd (strtoul (drop a l) (if is_hex (drop a l) (length l - a) then 16 else 10)) = 0"
  shows "parse_command skip_to_args is_hex pid l =
           (c_quit_program, pid, [Puts ''Invalid PID! Exiting...'', Puts []]) \<and>
         command_loop parse_command_common skip_to_args is_hex (l # rest) pid out =
           (Some 0, pid, out @ [Prompt, Puts ''Invalid PID! Exiting...'', Puts []]) \<and>
         (\<forall>q. parse_command_common q = c_quit_program \<longrightarrow>
              fst (command_loop parse_command_common skip_to_args is_hex (q # rest) pid out) = Some 0)"
proof -
  have p: "parse_command skip_to_args is_hex pid l =
             (c_quit_program, pid, [Puts ''Invalid PID! Exiting...'', Puts []])"
  proof -
    obtain v n where sv:
      "strtoul (drop a l) (if is_hex (drop a l) (length l - a) then 16 else 10) = (v, n)"
      by (cases "strtoul (drop a l) (if is_hex (drop a l) (length l - a) then 16 else 10)")
    with assms(4) have "n = 0" by simp
    with sv assms(2,3) show ?thesis
      by (simp add: parse_command_def Let_def)
  qed
  have "command_loop parse_command_common skip_to_args is_hex (l # rest) pid out =
           (Some 0, pid, out @ [Prompt, Puts ''Invalid PID! Exiting...'', Puts []])"
    using assms(1) by (simp add: p)
  moreover have "fst (command_loop parse_command_common skip_to_args is_hex (q # rest) pid out) = Some 0"
    if "parse_command_common q = c_quit_program" for q
    using that by simp
  ultimately show ?thesis using p by blast
qed

theorem invalid_pid_quits_witness:
  "run_process_inspection (\<lambda>l. if l = ''q'' then c_quit_program else c_not_set)
     (\<lambda>cmd n. if 2 < n then Some 2 else None) (\<lambda>s n. False) [''p 1234'', ''p zzz'', ''lt''] =
     (Some 0, 1234,
      [Prompt, Puts [], Prompt, Puts ''Invalid PID! Exiting...'', Puts []])"
proof -
  let ?pcc = "\<lambda>l. if l = ''q'' then c_quit_program else c_not_set"
  let ?sk = "\<lambda>(cmd::string) (n::nat). if 2 < n then Some (2::nat) else None"
  let ?hx = "\<lambda>(s::string) (n::nat). False"
  have h1: "?pcc ''p zzz'' = c_not_set" by simp
  have h2: "char_at ''p zzz'' 0 = CHR ''p''" by (simp add: char_at_def)
  have h3: "?sk ''p zzz'' (length ''p zzz'') = Some 2" by simp
  have h4: "snd (strtoul (drop 2 ''p zzz'') (if ?hx (drop 2 ''p zzz'') (length ''p zzz'' - 2) then 16 else 10)) = 0"
    by (simp add: strtoul_zzz)
  have s1: "strtoul ''1234'' 10 = (1234, 4)"
    by (simp add: strtoul_def isspace_def hex_prefix_def digit_of_def Let_def)
  have first: "parse_command ?sk ?hx 4294967295 ''p 1234'' = (c_continue, 1234, [Puts []])"
    by (simp add: parse_command_def char_at_def s1)
  from invalid_pid_quits[of ?pcc "''p zzz''" ?sk 2 ?hx 1234 "[''lt'']" "[Prompt, Puts []]", OF h1 h2 h3 h4]
  have "command_loop ?pcc ?sk ?hx [''p zzz'', ''lt''] 1234 [Prompt, Puts []] =
          (Some 0, 1234, [Prompt, Puts []] @ [Prompt, Puts ''Invalid PID! Exiting...'', Puts []])"
    by blast
  then show ?thesis
    by (simp add: run_process_inspection_def first)
qed

section \<open>The thread listing\<close>

lemma thread_step_snd:
  "snd (thread_step env te si) = (if lookup_ok env te then stack_of env te else si)"
  by (auto simp: thread_step_def get_thread_stack_base_def lookup_ok_def stack_of_def Let_def
      split: option.splits)

lemma thread_step_lines:
  "stack_lines (fst (thread_step env te si)) =
     [(th32ThreadID te, sp (snd (thread_step env te si)), ssize (snd (thread_step env te si)))]"
  by (auto simp: thread_step_def get_thread_stack_base_def stack_lines_def Let_def
      split: option.splits)

lemma stack_lines_append: "stack_lines (xs @ ys) = stack_lines xs @ stack_lines ys"
  by (simp add: stack_lines_def)

lemma thread_loop_append:
  "thread_loop env pid (pre @ rest) si =
     thread_loop env pid pre si @ thread_loop env pid rest (most_recent_stack env pid pre si)"
proof (induction pre arbitrary: si)
  case Nil
  show ?case by (simp add: most_recent_stack_def)
next
  case (Cons te pre)
  have mr: "most_recent_stack env pid (te # pre) si =
              most_recent_stack env pid pre
                (if th32OwnerProcessID te = pid \<and> lookup_ok env te then stack_of env te else si)"
    by (simp add: most_recent_stack_def split: list.splits)
  show ?case
  proof (cases "th32OwnerProcessID te = pid")
    case False
    then show ?thesis using Cons.IH[of si] by (simp add: mr)
  next
    case True
    obtain ls si' where st: "thread_step env te si = (ls, si')" by (cases "thread_step env te si")
    with thread_step_snd[of env te si]
    have si': "si' = (if lookup_ok env te then stack_of env te else si)" by simp
    from True st show ?thesis
      using Cons.IH[of si'] by (simp add: mr si')
  qed
qed

lemma length_stack_lines_loop:
  "length (stack_lines (thread_loop env pid ts si)) =
     length (filter (\<lambda>te. th32OwnerProcessID te = pid) ts)"
proof (induction ts arbitrary: si)
  case Nil
  show ?case by (simp add: stack_lines_def)
next
  case (Cons te ts)
  show ?case
  proof (cases "th32OwnerProcessID te = pid")
    case False
    then show ?thesis using Cons.IH by simp
  next
    case True
    obtain ls si' where st: "thread_step env te si = (ls, si')" by (cases "thread_step env te si")
    with thread_step_lines[of env te si] have "length (stack_lines ls) = 1" by simp
    with True st Cons.IH[of si'] show ?thesis
      by (simp add: stack_lines_append)
  qed
qed

text \<open>
  Claim C10. The record \<open>si\<close> is shared by all iterations and never reset: for an entry
  of the listed process whose stack lookup fails (the thread cannot be opened, the query
  fails, or the region is not committed and private), the line printed for it shows the
  stack base and size of the most recent earlier entry of the process whose lookup
  succeeded, and zero when there is none.
\<close>

theorem stale_stack_info:
  assumes "snapshot env = Some ts" and "OpenProcess env pid"
    and "i < length ts" and "th32OwnerProcessID (ts ! i) = pid"
    and "\<not> lookup_ok env (ts ! i)"
  shows "stack_lines (snd (list_process_threads env pid))
           ! length (filter (\<lambda>te. th32OwnerProcessID te = pid) (take i ts)) =
         (th32ThreadID (ts ! i),
          sp (most_recent_stack env pid (take i ts) \<lparr>sp = 0, ssize = 0\<rparr>),
          ssize (most_recent_stack env pid (take i ts) \<lparr>sp = 0, ssize = 0\<rparr>))"
proof -
  let ?z = "\<lparr>sp = 0, ssize = 0\<rparr>"
  let ?pre = "take i ts"
  let ?te = "ts ! i"
  let ?m = "most_recent_stack env pid ?pre ?z"
  from assms(3) have ts: "ts = ?pre @ ?te # drop (Suc i) ts"
    by (simp add: id_take_nth_drop)
  from assms(3) have ne: "ts \<noteq> []" by auto
  obtain ls si' where st: "thread_step env ?te ?m = (ls, si')" by (cases "thread_step env ?te ?m")
  with thread_step_snd[of env ?te ?m] assms(5) have si': "si' = ?m" by simp
  from thread_step_lines[of env ?te ?m] st si'
  have ls: "stack_lines ls = [(th32ThreadID ?te, sp ?m, ssize ?m)]" by simp
  have "thread_loop env pid ts ?z =
          thread_loop env pid ?pre ?z @ thread_loop env pid (?te # drop (Suc i) ts) ?m"
    using thread_loop_append[of env pid ?pre "?te # drop (Suc i) ts" ?z] ts by simp
  also have "thread_loop env pid (?te # drop (Suc i) ts) ?m =
          ls @ thread_loop env pid (drop (Suc i) ts) si'"
    using assms(4) st by simp
  finally have "stack_lines (thread_loop env pid ts ?z) =
          stack_lines (thread_loop env pid ?pre ?z) @ (th32ThreadID ?te, sp ?m, ssize ?m)
          # stack_lines (thread_loop env pid (drop (Suc i) ts) si')"
    by (simp add: stack_lines_append ls)
  then have "stack_lines (thread_loop env pid ts ?z)
               ! length (stack_lines (thread_loop env pid ?pre ?z)) =
             (th32ThreadID ?te, sp ?m, ssize ?m)"
    by (simp only: nth_append_length)
  then show ?thesis
    using assms(1,2) ne by (simp add: list_process_threads_def length_stack_lines_loop)
qed

theorem stale_stack_info_witness:
  "\<not> lookup_ok
       \<lparr>snapshot = Some [\<lparr>th32ThreadID = 1, th32OwnerProcessID = 7, tpBasePri = 8, tpDeltaPri = 0\<rparr>,
                          \<lparr>th32ThreadID = 2, th32OwnerProcessID = 9, tpBasePri = 8, tpDeltaPri = 0\<rparr>,
                          \<lparr>th32ThreadID = 3, th32OwnerProcessID = 7, tpBasePri = 8, tpDeltaPri = 0\<rparr>],
         OpenProcess = (\<lambda>p. True), OpenThread = (\<lambda>t. t \<noteq> 3),
         VirtualQueryEx_sp = (\<lambda>t. if t = 1 then
            Some \<lparr>BaseAddress = 4096, AllocationBase = 4096, RegionSize = 8192, State = MEM_COMMIT,
                   Protect = 4, Type = MEM_PRIVATE\<rparr> else None)\<rparr>
       \<lparr>th32ThreadID = 3, th32OwnerProcessID = 7, tpBasePri = 8, tpDeltaPri = 0\<rparr> \<and>
   stack_lines (snd (list_process_threads
       \<lparr>snapshot = Some [\<lparr>th32ThreadID = 1, th32OwnerProcessID = 7, tpBasePri = 8, tpDeltaPri = 0\<rparr>,
                          \<lparr>th32ThreadID = 2, th32OwnerProcessID = 9, tpBasePri = 8, tpDeltaPri = 0\<rparr>,
                          \<lparr>th32ThreadID = 3, th32OwnerProcessID = 7, tpBasePri = 8, tpDeltaPri = 0\<rparr>],
         OpenProcess = (\<lambda>p. True), OpenThread = (\<lambda>t. t \<noteq> 3),
         VirtualQueryEx_sp = (\<lambda>t. if t = 1 then
            Some \<lparr>BaseAddress = 4096, AllocationBase = 4096, RegionSize = 8192, State = MEM_COMMIT,
                   Protect = 4, Type = MEM_PRIVATE\<rparr> else None)\<rparr> 7)) ! 1 =
     (3, 4096, 8192)"
proof -
  let ?t1 = "\<lparr>th32ThreadID = 1, th32OwnerProcessID = 7, tpBasePri = 8, tpDeltaPri = 0\<rparr>"
  let ?t2 = "\<lparr>th32ThreadID = 2, th32OwnerProcessID = 9, tpBasePri = 8, tpDeltaPri = 0\<rparr>"
  let ?t3 = "\<lparr>th32ThreadID = 3, th32OwnerProcessID = 7, tpBasePri = 8, tpDeltaPri = 0\<rparr>"
  let ?ts = "[?t1, ?t2, ?t3]"
  let ?env = "\<lparr>snapshot = Some ?ts,
         OpenProcess = (\<lambda>p. True), OpenThread = (\<lambda>t. t \<noteq> 3),
         VirtualQueryEx_sp = (\<lambda>t. if t = 1 then
            Some \<lparr>BaseAddress = 4096, AllocationBase = 4096, RegionSize = 8192, State = MEM_COMMIT,
                   Protect = 4, Type = MEM_PRIVATE\<rparr> else None)\<rparr>"
  have h1: "snapshot ?env = Some ?ts" by simp
  have h2: "OpenProcess ?env 7" by simp
  have h3: "2 < length ?ts" by simp
  have h4: "th32OwnerProcessID (?ts ! 2) = 7" by simp
  have h5: "\<not> lookup_ok ?env (?ts ! 2)" by (simp add: lookup_ok_def)
  have m: "most_recent_stack ?env 7 (take 2 ?ts) \<lparr>sp = 0, ssize = 0\<rparr> = \<lparr>sp = 4096, ssize = 8192\<rparr>"
    by (simp add: most_recent_stack_def lookup_ok_def stack_of_def)
  have n: "length (filter (\<lambda>te. th32OwnerProcessID te = 7) (take 2 ?ts)) = 1" by simp
  from stale_stack_info[OF h1 h2 h3 h4 h5] h5 show ?thesis
    unfolding m n by simp
qed

end
